theory Spec2Isabelle
  imports Complex_Main
begin

section \<open>Python exceptions\<close>

text \<open>
  The exceptions the modelled code can raise.  A function that can raise returns
  \<open>error + 'a\<close>, with \<open>Inl\<close> for the exception.  The module defines no exception
  class of its own: every failure is one of Python's or numpy's built-in exceptions.
\<close>

datatype error =
    FileNotFoundError
  | ValueError
  | TypeError
  | IndexError
  | KeyError
  | AssertionError
  | RuntimeError
  | OverflowError

section \<open>Numeric values and numpy arrays\<close>

text \<open>
  An array element of floating dtype: a finite value, an infinity (\<open>Inf True\<close> is
  \<open>+inf\<close>) or \<open>nan\<close>.  Finite values are exact rationals: rounding, overflow to
  infinity and the sign of zero are not modelled.  numpy's float division does not
  raise on a zero divisor, it yields \<open>inf\<close> or \<open>nan\<close>.
\<close>

datatype fval = Fin rat | Inf bool | NaN

fun fsub :: "fval \<Rightarrow> fval \<Rightarrow> fval" where
  "fsub (Fin a) (Fin b) = Fin (a - b)"
| "fsub (Fin a) (Inf t) = Inf (\<not> t)"
| "fsub (Inf s) (Fin b) = Inf s"
| "fsub (Inf s) (Inf t) = (if s = t then NaN else Inf s)"
| "fsub NaN y = NaN"
| "fsub x NaN = NaN"

fun fmul :: "fval \<Rightarrow> fval \<Rightarrow> fval" where
  "fmul (Fin a) (Fin b) = Fin (a * b)"
| "fmul (Fin a) (Inf t) = (if a = 0 then NaN else Inf (t = (0 < a)))"
| "fmul (Inf s) (Fin b) = (if b = 0 then NaN else Inf (s = (0 < b)))"
| "fmul (Inf s) (Inf t) = Inf (s = t)"
| "fmul NaN y = NaN"
| "fmul x NaN = NaN"

fun fdiv :: "fval \<Rightarrow> fval \<Rightarrow> fval" where
  "fdiv (Fin a) (Fin b) =
     (if b \<noteq> 0 then Fin (a / b) else if a = 0 then NaN else Inf (0 < a))"
| "fdiv (Fin a) (Inf t) = Fin 0"
| "fdiv (Inf s) (Fin b) = Inf (s = (0 \<le> b))"
| "fdiv (Inf s) (Inf t) = NaN"
| "fdiv NaN y = NaN"
| "fdiv x NaN = NaN"

text \<open>
  A numpy array: its shape and its elements in row-major (C) order.  A Python or
  numpy scalar is the array of shape \<open>()\<close>, which is how numpy treats it in
  arithmetic.  A well-formed array has as many elements as its shape says.
\<close>

datatype 'a ndarray = NDArray (np_shape: "nat list") (elems: "'a list")

definition wf_array :: "'a ndarray \<Rightarrow> bool" where
  "wf_array a = (length (elems a) = prod_list (np_shape a))"

definition scalar :: "'a \<Rightarrow> 'a ndarray" where
  "scalar x = NDArray [] [x]"

text \<open>All multi-indices of a shape, in row-major order.\<close>

fun indices :: "nat list \<Rightarrow> nat list list" where
  "indices [] = [[]]"
| "indices (n # ns) = concat (map (\<lambda>i. map ((#) i) (indices ns)) [0..<n])"

text \<open>The position of a multi-index in the row-major element list.\<close>

definition flat_index :: "nat list \<Rightarrow> nat list \<Rightarrow> nat" where
  "flat_index s idx = foldl (\<lambda>acc (n, i). acc * n + i) 0 (zip s idx)"

definition get :: "'a ndarray \<Rightarrow> nat list \<Rightarrow> 'a" where
  "get a idx = elems a ! flat_index (np_shape a) idx"

text \<open>
  numpy's broadcasting rule: the shapes are aligned at their last dimension; two
  dimensions are compatible when they are equal or one of them is 1; a missing leading
  dimension counts as 1.  \<open>broadcast_rev\<close> works on the reversed shapes.
\<close>

fun broadcast_rev :: "nat list \<Rightarrow> nat list \<Rightarrow> nat list option" where
  "broadcast_rev [] ys = Some ys"
| "broadcast_rev (x # xs) [] = Some (x # xs)"
| "broadcast_rev (x # xs) (y # ys) =
     (if x = y \<or> y = 1 then map_option ((#) x) (broadcast_rev xs ys)
      else if x = 1 then map_option ((#) y) (broadcast_rev xs ys)
      else None)"

definition broadcast_shapes :: "nat list \<Rightarrow> nat list \<Rightarrow> nat list option" where
  "broadcast_shapes s t = map_option rev (broadcast_rev (rev s) (rev t))"

text \<open>
  The element of \<open>a\<close> that a position \<open>idx\<close> of the broadcast result reads: the
  trailing part of \<open>idx\<close>, with index 0 along every dimension of size 1.
\<close>

definition bget :: "'a ndarray \<Rightarrow> nat list \<Rightarrow> 'a" where
  "bget a idx =
     get a (map2 (\<lambda>n i. if n = 1 then 0 else i) (np_shape a)
              (drop (length idx - length (np_shape a)) idx))"

text \<open>
  An element-wise binary operator of numpy (\<open>a - b\<close>, \<open>a * b\<close>, \<open>a / b\<close>): shapes
  that do not broadcast raise \<open>ValueError\<close> ("operands could not be broadcast
  together"); otherwise the result is a new array of the broadcast shape.
\<close>

definition np_binop ::
  "('a \<Rightarrow> 'a \<Rightarrow> 'a) \<Rightarrow> 'a ndarray \<Rightarrow> 'a ndarray \<Rightarrow> error + 'a ndarray" where
  "np_binop f a b =
     (case broadcast_shapes (np_shape a) (np_shape b) of
        None \<Rightarrow> Inl ValueError
      | Some s \<Rightarrow> Inr (NDArray s (map (\<lambda>idx. f (bget a idx) (bget b idx)) (indices s))))"

definition np_subtract :: "fval ndarray \<Rightarrow> fval ndarray \<Rightarrow> error + fval ndarray" where
  "np_subtract = np_binop fsub"

definition np_multiply :: "fval ndarray \<Rightarrow> fval ndarray \<Rightarrow> error + fval ndarray" where
  "np_multiply = np_binop fmul"

definition np_true_divide :: "fval ndarray \<Rightarrow> fval ndarray \<Rightarrow> error + fval ndarray" where
  "np_true_divide = np_binop fdiv"

section \<open>The calibration pipeline (spectacle/calibrate.py)\<close>

text \<open>
  The value passed as \<open>iso_values\<close>, by its Python class.  \<open>bool\<close> is a subclass of
  \<open>int\<close> and \<open>numpy.float64\<close> a subclass of \<open>float\<close>; numpy's integer scalars
  (\<open>numpy.int64\<close>, the elements of an integer array) and \<open>numpy.float32\<close> are
  subclasses of neither.
\<close>

datatype pyvalue =
    PyInt int
  | PyBool bool
  | PyFloat fval
  | NpInteger int
  | NpFloat64 fval
  | NpFloat32 fval
  | PyList "fval list"
  | NpArray "fval ndarray"

text \<open>\<^verbatim>\<open>isinstance(iso_values, (int, float))\<close>\<close>

fun isinstance_int_float :: "pyvalue \<Rightarrow> bool" where
  "isinstance_int_float (PyInt n) = True"
| "isinstance_int_float (PyBool b) = True"
| "isinstance_int_float (PyFloat x) = True"
| "isinstance_int_float (NpInteger n) = False"
| "isinstance_int_float (NpFloat64 x) = True"
| "isinstance_int_float (NpFloat32 x) = False"
| "isinstance_int_float (PyList xs) = False"
| "isinstance_int_float (NpArray a) = False"

text \<open>
  calibrate.py imports the submodules \<open>bias_readnoise\<close>, \<open>dark\<close>, \<open>flat\<close>, \<open>gain\<close>
  and \<open>iso\<close> of the package, which are not among the sources.  The functions it
  calls from them are the fields of this record: the loaders are functions of the
  camera's root folder (what they return is what the files under that folder hold),
  the others are functions of the values they are given.
\<close>

type_synonym path = string

record spectacle =
  load_bias_map :: "path \<Rightarrow> error + fval ndarray"
  load_bias_metadata :: "path \<Rightarrow> error + fval ndarray"
  load_dark_current_map :: "path \<Rightarrow> error + fval ndarray"
  load_iso_lookup_table :: "path \<Rightarrow> error + fval ndarray"
  load_gain_map :: "path \<Rightarrow> error + fval ndarray"
  load_flat_field_correction_map :: "path \<Rightarrow> error + fval ndarray"
  clip_data :: "fval ndarray \<Rightarrow> error + fval ndarray"
  normalise_single_iso ::
    "fval ndarray \<Rightarrow> pyvalue \<Rightarrow> fval ndarray \<Rightarrow> error + fval ndarray"
  normalise_multiple_iso ::
    "fval ndarray \<Rightarrow> pyvalue \<Rightarrow> fval ndarray \<Rightarrow> error + fval ndarray"

text \<open>
  \<open>correct_bias\<close>: the bias map is tried first; only \<open>FileNotFoundError\<close> is caught,
  and then the bias comes from the metadata.  The \<open>print\<close> calls are left out.
\<close>

definition correct_bias :: "spectacle \<Rightarrow> path \<Rightarrow> fval ndarray \<Rightarrow> error + fval ndarray" where
  "correct_bias sp root_path data =
     (case (case load_bias_map sp root_path of
              Inl e \<Rightarrow> if e = FileNotFoundError then load_bias_metadata sp root_path else Inl e
            | Inr bias \<Rightarrow> Inr bias) of
        Inl e \<Rightarrow> Inl e
      | Inr bias \<Rightarrow> np_subtract data bias)"

definition correct_dark_current ::
  "spectacle \<Rightarrow> path \<Rightarrow> fval ndarray \<Rightarrow> fval ndarray \<Rightarrow> error + fval ndarray" where
  "correct_dark_current sp root_path data exposure_time =
     (case load_dark_current_map sp root_path of
        Inl e \<Rightarrow> Inl e
      | Inr dark_current \<Rightarrow>
          (case np_multiply dark_current exposure_time of
             Inl e \<Rightarrow> Inl e
           | Inr dark_total \<Rightarrow> np_subtract data dark_total))"

definition normalise_iso ::
  "spectacle \<Rightarrow> path \<Rightarrow> fval ndarray \<Rightarrow> pyvalue \<Rightarrow> error + fval ndarray" where
  "normalise_iso sp root_path data iso_values =
     (case load_iso_lookup_table sp root_path of
        Inl e \<Rightarrow> Inl e
      | Inr lookup_table \<Rightarrow>
          if isinstance_int_float iso_values
          then normalise_single_iso sp data iso_values lookup_table
          else normalise_multiple_iso sp data iso_values lookup_table)"

definition convert_to_photoelectrons ::
  "spectacle \<Rightarrow> path \<Rightarrow> fval ndarray \<Rightarrow> error + fval ndarray" where
  "convert_to_photoelectrons sp root_path data =
     (case load_gain_map sp root_path of
        Inl e \<Rightarrow> Inl e
      | Inr gain_map \<Rightarrow> np_true_divide data gain_map)"

definition correct_flatfield ::
  "spectacle \<Rightarrow> path \<Rightarrow> fval ndarray \<Rightarrow> error + fval ndarray" where
  "correct_flatfield sp root_path data =
     (case load_flat_field_correction_map sp root_path of
        Inl e \<Rightarrow> Inl e
      | Inr correction_map \<Rightarrow>
          (case clip_data sp data of
             Inl e \<Rightarrow> Inl e
           | Inr data_clipped \<Rightarrow> np_multiply data_clipped correction_map))"

text \<open>
  A package in which no calibration file exists and the metadata give the bias
  \<open>b\<close>: every map loader raises \<open>FileNotFoundError\<close>.  Used for concrete inputs.
\<close>

definition metadata_only :: "fval \<Rightarrow> spectacle" where
  "metadata_only b =
     \<lparr> load_bias_map = (\<lambda>root_path. Inl FileNotFoundError),
       load_bias_metadata = (\<lambda>root_path. Inr (scalar b)),
       load_dark_current_map = (\<lambda>root_path. Inl FileNotFoundError),
       load_iso_lookup_table = (\<lambda>root_path. Inl FileNotFoundError),
       load_gain_map = (\<lambda>root_path. Inl FileNotFoundError),
       load_flat_field_correction_map = (\<lambda>root_path. Inl FileNotFoundError),
       clip_data = (\<lambda>data. Inr data),
       normalise_single_iso = (\<lambda>data iso lookup_table. Inr data),
       normalise_multiple_iso = (\<lambda>data isos lookup_table. Inr data) \<rparr>"


definition example_package :: spectacle where
  "example_package =
     (metadata_only (Fin 528))
       \<lparr>load_dark_current_map := (\<lambda>root_path. Inr (scalar (Fin (1 / 1000))))\<rparr>"

text \<open>\<^verbatim>\<open>numpy.full(s, c)\<close>: the array of shape \<open>s\<close> that holds \<open>c\<close> everywhere.\<close>

definition np_full :: "nat list \<Rightarrow> 'a \<Rightarrow> 'a ndarray" where
  "np_full s c = NDArray s (replicate (prod_list s) c)"

text \<open>
  A package whose gain map file and flat-field correction map file both hold \<open>m\<close>,
  in which \<open>clip_data\<close> removes nothing, and that is \<open>metadata_only\<close> otherwise.
\<close>

definition package_with_map :: "fval ndarray \<Rightarrow> spectacle" where
  "package_with_map m =
     (metadata_only (Fin 528))
       \<lparr>load_gain_map := (\<lambda>root_path. Inr m),
        load_flat_field_correction_map := (\<lambda>root_path. Inr m)\<rparr>"

section \<open>The pipeline on array objects\<close>

text \<open>
  For the question which arrays a stage writes to, arrays are objects: the heap is
  the list of the arrays that exist, and a reference is a position in it.  Creating
  an array appends it; no operation of calibrate.py assigns to an element of an
  array.  A numpy binary operator reads its two operands and creates its result; a
  loader creates the array it returns.  A reference that a function is given is to
  an array of the heap it is given (\<open>data < length h\<close>), as every Python reference
  is.
\<close>

type_synonym heap = "fval ndarray list"
type_synonym ref = nat

definition binop_heap ::
  "(fval ndarray \<Rightarrow> fval ndarray \<Rightarrow> error + fval ndarray) \<Rightarrow> heap \<Rightarrow> ref \<Rightarrow> ref
     \<Rightarrow> (error + ref) \<times> heap" where
  "binop_heap op h a b =
     (case op (h ! a) (h ! b) of
        Inl e \<Rightarrow> (Inl e, h)
      | Inr r \<Rightarrow> (Inr (length h), h @ [r]))"

definition load_heap :: "error + fval ndarray \<Rightarrow> heap \<Rightarrow> (error + ref) \<times> heap" where
  "load_heap loaded h =
     (case loaded of
        Inl e \<Rightarrow> (Inl e, h)
      | Inr a \<Rightarrow> (Inr (length h), h @ [a]))"

text \<open>
  The functions of the absent submodules that are handed the data array, as
  operations on the heap: what they do to the array they are given is not in the
  sources.
\<close>

record spectacle_heap =
  clip_data_heap :: "heap \<Rightarrow> ref \<Rightarrow> (error + ref) \<times> heap"
  normalise_single_iso_heap :: "heap \<Rightarrow> ref \<Rightarrow> pyvalue \<Rightarrow> ref \<Rightarrow> (error + ref) \<times> heap"
  normalise_multiple_iso_heap :: "heap \<Rightarrow> ref \<Rightarrow> pyvalue \<Rightarrow> ref \<Rightarrow> (error + ref) \<times> heap"

definition correct_bias_heap ::
  "spectacle \<Rightarrow> path \<Rightarrow> heap \<Rightarrow> ref \<Rightarrow> (error + ref) \<times> heap" where
  "correct_bias_heap sp root_path h data =
     (case load_heap (load_bias_map sp root_path) h of
        (Inl e, h1) \<Rightarrow>
          if e = FileNotFoundError
          then (case load_heap (load_bias_metadata sp root_path) h1 of
                  (Inl e', h2) \<Rightarrow> (Inl e', h2)
                | (Inr bias, h2) \<Rightarrow> binop_heap np_subtract h2 data bias)
          else (Inl e, h1)
      | (Inr bias, h1) \<Rightarrow> binop_heap np_subtract h1 data bias)"

definition correct_dark_current_heap ::
  "spectacle \<Rightarrow> path \<Rightarrow> heap \<Rightarrow> ref \<Rightarrow> ref \<Rightarrow> (error + ref) \<times> heap" where
  "correct_dark_current_heap sp root_path h data exposure_time =
     (case load_heap (load_dark_current_map sp root_path) h of
        (Inl e, h1) \<Rightarrow> (Inl e, h1)
      | (Inr dark_current, h1) \<Rightarrow>
          (case binop_heap np_multiply h1 dark_current exposure_time of
             (Inl e, h2) \<Rightarrow> (Inl e, h2)
           | (Inr dark_total, h2) \<Rightarrow> binop_heap np_subtract h2 data dark_total))"

definition normalise_iso_heap ::
  "spectacle \<Rightarrow> spectacle_heap \<Rightarrow> path \<Rightarrow> heap \<Rightarrow> ref \<Rightarrow> pyvalue
     \<Rightarrow> (error + ref) \<times> heap" where
  "normalise_iso_heap sp hp root_path h data iso_values =
     (case load_heap (load_iso_lookup_table sp root_path) h of
        (Inl e, h1) \<Rightarrow> (Inl e, h1)
      | (Inr lookup_table, h1) \<Rightarrow>
          if isinstance_int_float iso_values
          then normalise_single_iso_heap hp h1 data iso_values lookup_table
          else normalise_multiple_iso_heap hp h1 data iso_values lookup_table)"

definition convert_to_photoelectrons_heap ::
  "spectacle \<Rightarrow> path \<Rightarrow> heap \<Rightarrow> ref \<Rightarrow> (error + ref) \<times> heap" where
  "convert_to_photoelectrons_heap sp root_path h data =
     (case load_heap (load_gain_map sp root_path) h of
        (Inl e, h1) \<Rightarrow> (Inl e, h1)
      | (Inr gain_map, h1) \<Rightarrow> binop_heap np_true_divide h1 data gain_map)"

definition correct_flatfield_heap ::
  "spectacle \<Rightarrow> spectacle_heap \<Rightarrow> path \<Rightarrow> heap \<Rightarrow> ref \<Rightarrow> (error + ref) \<times> heap" where
  "correct_flatfield_heap sp hp root_path h data =
     (case load_heap (load_flat_field_correction_map sp root_path) h of
        (Inl e, h1) \<Rightarrow> (Inl e, h1)
      | (Inr correction_map, h1) \<Rightarrow>
          (case clip_data_heap hp h1 data of
             (Inl e, h2) \<Rightarrow> (Inl e, h2)
           | (Inr data_clipped, h2) \<Rightarrow> binop_heap np_multiply h2 data_clipped correction_map))"




text \<open>
  Helpers that behave as numpy's own operations do: clipping returns a view, a new
  array object holding part of the data; the ISO normalisations return what the
  value-level functions of the package compute, as a new array.
\<close>

definition helpers_of :: "spectacle \<Rightarrow> spectacle_heap" where
  "helpers_of sp =
     \<lparr> clip_data_heap = (\<lambda>h data. load_heap (clip_data sp (h ! data)) h),
       normalise_single_iso_heap =
         (\<lambda>h data iso lookup_table.
            load_heap (normalise_single_iso sp (h ! data) iso (h ! lookup_table)) h),
       normalise_multiple_iso_heap =
         (\<lambda>h data isos lookup_table.
            load_heap (normalise_multiple_iso sp (h ! data) isos (h ! lookup_table)) h) \<rparr>"


text \<open>The value an operation on the heap returned: the array behind its reference.\<close>

definition value_of :: "(error + ref) \<times> heap \<Rightarrow> error + fval ndarray" where
  "value_of out = (case fst out of Inl e \<Rightarrow> Inl e | Inr r \<Rightarrow> Inr (snd out ! r))"

section \<open>The ISO normalisation script (calibration/iso_normalisation.py)\<close>



definition np_argmin :: "int list \<Rightarrow> error + nat" where
  "np_argmin xs =
     (if xs = [] then Inl ValueError
      else Inr (length (takeWhile (\<lambda>x. x \<noteq> Min (set xs)) xs)))"


text \<open>\<open>means[k]\<close>: the \<open>k\<close>-th image of the stack; \<open>IndexError\<close> past the end, and on
  an array without dimensions.\<close>

definition subarray :: "'a ndarray \<Rightarrow> nat \<Rightarrow> error + 'a ndarray" where
  "subarray a k =
     (case np_shape a of
        [] \<Rightarrow> Inl IndexError
      | n # s \<Rightarrow>
          if k < n then Inr (NDArray s (take (prod_list s) (drop (k * prod_list s) (elems a))))
          else Inl IndexError)"


text \<open>
  \<open>ratios = means / means[isos.argmin()]\<close>: the means relative to the image at the
  lowest ISO speed.
\<close>

definition ratios_of :: "int list \<Rightarrow> fval ndarray \<Rightarrow> error + fval ndarray" where
  "ratios_of isos means =
     (case np_argmin isos of
        Inl e \<Rightarrow> Inl e
      | Inr k \<Rightarrow>
          (case subarray means k of
             Inl e \<Rightarrow> Inl e
           | Inr lowest \<Rightarrow> np_true_divide means lowest))"








section \<open>The camera metadata (spectacle/metadata.py)\<close>

text \<open>
  The values a field of the metadata file holds (JSON, as \<open>json.load\<close> returns
  it): an integer, a float, a string, a list of integers, or a list of lists of
  integers.  A dictionary is the list of its items in insertion order, with distinct
  keys.
\<close>

datatype json_value =
    JInt int
  | JFloat fval
  | JStr string
  | JInts "int list"
  | JRows "int list list"

type_synonym properties = "(string \<times> json_value) list"

text \<open>The three named tuples of \<open>Camera\<close>, and the camera.\<close>

record Device =
  manufacturer :: json_value
  name :: json_value

record Image =
  shape :: json_value
  raw_extension :: json_value
  bias :: json_value
  bayer_pattern :: json_value
  bit_depth :: json_value

record Settings =
  ISO_min :: json_value
  ISO_max :: json_value
  exposure_min :: json_value
  exposure_max :: json_value

record Camera =
  device :: Device
  image' :: Image
  settings :: Settings
  bayer_map :: "int ndarray"

text \<open>The field names the three \<open>namedtuple\<close> declarations give.\<close>

definition Device_fields :: "string list" where
  "Device_fields = [''manufacturer'', ''name'']"

definition Image_fields :: "string list" where
  "Image_fields = [''shape'', ''raw_extension'', ''bias'', ''bayer_pattern'', ''bit_depth'']"

definition Settings_fields :: "string list" where
  "Settings_fields = [''ISO_min'', ''ISO_max'', ''exposure_min'', ''exposure_max'']"

text \<open>
  Calling a named tuple class with \<open>**properties\<close>: a key that is not one of the
  fields raises \<open>TypeError\<close> (unexpected keyword argument), and so does a field
  without a key (missing required argument).
\<close>

definition new_Device :: "properties \<Rightarrow> error + Device" where
  "new_Device kwargs =
     (if set (map fst kwargs) \<subseteq> set Device_fields
      then (case (map_of kwargs ''manufacturer'', map_of kwargs ''name'') of
              (Some m, Some n) \<Rightarrow> Inr \<lparr>manufacturer = m, name = n\<rparr>
            | _ \<Rightarrow> Inl TypeError)
      else Inl TypeError)"

definition new_Image :: "properties \<Rightarrow> error + Image" where
  "new_Image kwargs =
     (if set (map fst kwargs) \<subseteq> set Image_fields
      then (case (map_of kwargs ''shape'', map_of kwargs ''raw_extension'',
                  map_of kwargs ''bias'', map_of kwargs ''bayer_pattern'',
                  map_of kwargs ''bit_depth'') of
              (Some s, Some r, Some b, Some p, Some d) \<Rightarrow>
                Inr \<lparr>shape = s, raw_extension = r, bias = b, bayer_pattern = p, bit_depth = d\<rparr>
            | _ \<Rightarrow> Inl TypeError)
      else Inl TypeError)"

definition new_Settings :: "properties \<Rightarrow> error + Settings" where
  "new_Settings kwargs =
     (if set (map fst kwargs) \<subseteq> set Settings_fields
      then (case (map_of kwargs ''ISO_min'', map_of kwargs ''ISO_max'',
                  map_of kwargs ''exposure_min'', map_of kwargs ''exposure_max'') of
              (Some a, Some b, Some c, Some d) \<Rightarrow>
                Inr \<lparr>ISO_min = a, ISO_max = b, exposure_min = c, exposure_max = d\<rparr>
            | _ \<Rightarrow> Inl TypeError)
      else Inl TypeError)"

text \<open>
  \<^verbatim>\<open>np.zeros(shape, dtype=int)\<close>: the shape is an integer or a sequence of integers,
  none negative (\<open>ValueError\<close>).  A float is no shape, and neither is a sequence
  with an element that is no integer, such as a character or a list (\<open>TypeError\<close>);
  the empty sequence is the shape \<open>()\<close>.
\<close>

fun np_zeros :: "json_value \<Rightarrow> error + int ndarray" where
  "np_zeros (JInt n) =
     (if n < 0 then Inl ValueError else Inr (NDArray [nat n] (replicate (nat n) 0)))"
| "np_zeros (JInts ns) =
     (if \<exists>n \<in> set ns. n < 0 then Inl ValueError
      else Inr (NDArray (map nat ns) (replicate (prod_list (map nat ns)) 0)))"
| "np_zeros (JRows rows) =
     (if rows = [] then Inr (NDArray [] [0]) else Inl TypeError)"
| "np_zeros (JFloat x) = Inl TypeError"
| "np_zeros (JStr s) =
     (if s = [] then Inr (NDArray [] [0]) else Inl TypeError)"

text \<open>
  What \<open>pattern[i][j]\<close> evaluates to: an integer of a list of lists, or a character
  of a string (\<open>s[i]\<close> is a string of length one, of which only \<open>[0]\<close> exists).
  Subscripting an integer or a float raises \<open>TypeError\<close>, a subscript past the end
  \<open>IndexError\<close>.
\<close>

datatype entry = IntEntry int | CharEntry char

fun subscript2 :: "json_value \<Rightarrow> nat \<Rightarrow> nat \<Rightarrow> error + entry" where
  "subscript2 (JRows rows) i j =
     (if i < length rows
      then (if j < length (rows ! i) then Inr (IntEntry (rows ! i ! j)) else Inl IndexError)
      else Inl IndexError)"
| "subscript2 (JInts ns) i j = (if i < length ns then Inl TypeError else Inl IndexError)"
| "subscript2 (JStr s) i j =
     (if i < length s then (if j = 0 then Inr (CharEntry (s ! i)) else Inl IndexError)
      else Inl IndexError)"
| "subscript2 (JInt n) i j = Inl TypeError"
| "subscript2 (JFloat x) i j = Inl TypeError"

text \<open>
  The conversion of an assigned value to an element of an \<open>int\<close> array (64 bits):
  an integer out of range raises \<open>OverflowError\<close>, a character that is no decimal
  digit \<open>ValueError\<close>.
\<close>

definition digits :: string where
  "digits = ''0123456789''"

definition int64 :: "int \<Rightarrow> bool" where
  "int64 n = (- (2 ^ 63) \<le> n \<and> n < 2 ^ 63)"

fun to_int64 :: "entry \<Rightarrow> error + int" where
  "to_int64 (IntEntry n) = (if int64 n then Inr n else Inl OverflowError)"
| "to_int64 (CharEntry c) =
     (if c \<in> set digits then Inr (int (length (takeWhile (\<lambda>d. d \<noteq> c) digits)))
      else Inl ValueError)"

text \<open>
  \<open>in_slice r0 c0 idx\<close>: the multi-index \<open>idx\<close> is selected by \<^verbatim>\<open>[r0::2, c0::2]\<close>:
  its first index is one of \<open>r0, r0+2, ...\<close> and its second one of
  \<open>c0, c0+2, ...\<close>.
\<close>

definition in_slice :: "nat \<Rightarrow> nat \<Rightarrow> nat list \<Rightarrow> bool" where
  "in_slice r0 c0 idx =
     (r0 \<le> idx ! 0 \<and> (idx ! 0 - r0) mod 2 = 0 \<and> c0 \<le> idx ! 1 \<and> (idx ! 1 - c0) mod 2 = 0)"

text \<open>
  \<^verbatim>\<open>a[r0::2, c0::2] = v\<close> for a scalar \<open>v\<close>: two slices need an array of at least two
  dimensions (\<open>IndexError\<close>); every selected element becomes \<open>v\<close>, converted.
\<close>

definition setitem_step2 :: "int ndarray \<Rightarrow> nat \<Rightarrow> nat \<Rightarrow> entry \<Rightarrow> error + int ndarray" where
  "setitem_step2 a r0 c0 v =
     (if length (np_shape a) < 2 then Inl IndexError
      else (case to_int64 v of
              Inl e \<Rightarrow> Inl e
            | Inr n \<Rightarrow>
                Inr (NDArray (np_shape a)
                      (map2 (\<lambda>idx x. if in_slice r0 c0 idx then n else x)
                         (indices (np_shape a)) (elems a)))))"

text \<open>One statement \<^verbatim>\<open>bayer_map[r0::2, c0::2] = self.image.bayer_pattern[r0][c0]\<close>:
  the right-hand side is evaluated first.\<close>

definition assign_pattern :: "Image \<Rightarrow> nat \<Rightarrow> nat \<Rightarrow> int ndarray \<Rightarrow> error + int ndarray" where
  "assign_pattern img r0 c0 a =
     (case subscript2 (bayer_pattern img) r0 c0 of
        Inl e \<Rightarrow> Inl e
      | Inr v \<Rightarrow> setitem_step2 a r0 c0 v)"

definition generate_bayer_map :: "Image \<Rightarrow> error + int ndarray" where
  "generate_bayer_map img =
     (case np_zeros (shape img) of
        Inl e \<Rightarrow> Inl e
      | Inr m0 \<Rightarrow>
     (case assign_pattern img 0 0 m0 of
        Inl e \<Rightarrow> Inl e
      | Inr m1 \<Rightarrow>
     (case assign_pattern img 0 1 m1 of
        Inl e \<Rightarrow> Inl e
      | Inr m2 \<Rightarrow>
     (case assign_pattern img 1 0 m2 of
        Inl e \<Rightarrow> Inl e
      | Inr m3 \<Rightarrow> assign_pattern img 1 1 m3))))"

text \<open>\<open>Camera.__init__\<close>\<close>

definition new_Camera :: "properties \<Rightarrow> properties \<Rightarrow> properties \<Rightarrow> error + Camera" where
  "new_Camera device_properties image_properties settings_properties =
     (case new_Device device_properties of
        Inl e \<Rightarrow> Inl e
      | Inr d \<Rightarrow>
     (case new_Image image_properties of
        Inl e \<Rightarrow> Inl e
      | Inr i \<Rightarrow>
     (case new_Settings settings_properties of
        Inl e \<Rightarrow> Inl e
      | Inr s \<Rightarrow>
     (case generate_bayer_map i of
        Inl e \<Rightarrow> Inl e
      | Inr m \<Rightarrow> Inr \<lparr>device = d, image' = i, settings = s, bayer_map = m\<rparr>))))"

text \<open>
  \<open>Camera.read_from_file\<close>: \<open>files\<close> gives, for a path, what \<open>load_json\<close> returns
  or raises there.  The values of the dictionary are unpacked into three names, in
  the dictionary's order; any other number of values raises \<open>ValueError\<close>.
\<close>

definition read_from_file ::
  "(path \<Rightarrow> error + (string \<times> properties) list) \<Rightarrow> path \<Rightarrow> error + Camera" where
  "read_from_file files file_path =
     (case files file_path of
        Inl e \<Rightarrow> Inl e
      | Inr full_dictionary \<Rightarrow>
          (case map snd full_dictionary of
             [device_properties, image_properties, settings_properties] \<Rightarrow>
               new_Camera device_properties image_properties settings_properties
           | _ \<Rightarrow> Inl ValueError))"

text \<open>
  For concrete inputs: the metadata of a camera as three dictionaries, the image
  dictionary for any shape, and the image tuple built from it.
\<close>

definition iPhone_device :: properties where
  "iPhone_device = [(''manufacturer'', JStr ''Apple''), (''name'', JStr ''iPhone SE'')]"

definition iPhone_image :: "int list \<Rightarrow> properties" where
  "iPhone_image s =
     [(''shape'', JInts s), (''raw_extension'', JStr ''.dng''), (''bias'', JInt 528),
      (''bayer_pattern'', JRows [[0, 1], [2, 3]]), (''bit_depth'', JInt 10)]"

definition iPhone_settings :: properties where
  "iPhone_settings =
     [(''ISO_min'', JInt 23), (''ISO_max'', JInt 200),
      (''exposure_min'', JFloat (Fin (1 / 1000))), (''exposure_max'', JFloat (Fin 1))]"

definition iPhone_Image :: "int list \<Rightarrow> Image" where
  "iPhone_Image s =
     \<lparr>shape = JInts s, raw_extension = JStr ''.dng'', bias = JInt 528,
      bayer_pattern = JRows [[0, 1], [2, 3]], bit_depth = JInt 10\<rparr>"

text \<open>
  What assigning the groups by their key names would construct, for comparison with
  \<open>read_from_file\<close>, which does not look at the keys.
\<close>

definition new_Camera_by_key :: "(string \<times> properties) list \<Rightarrow> error + Camera" where
  "new_Camera_by_key full_dictionary =
     (case (map_of full_dictionary ''device'', map_of full_dictionary ''image'',
            map_of full_dictionary ''settings'') of
        (Some d, Some i, Some s) \<Rightarrow> new_Camera d i s
      | _ \<Rightarrow> Inl KeyError)"

text \<open>
  Three metadata files of the same camera: written as \<open>Camera.write_to_file\<close> writes
  them; with the image group first; and with the groups in the written order under
  exchanged keys.
\<close>

definition ordered_file :: "(string \<times> properties) list" where
  "ordered_file =
     [(''device'', iPhone_device), (''image'', iPhone_image [2, 2]), (''settings'', iPhone_settings)]"

definition misordered_file :: "(string \<times> properties) list" where
  "misordered_file =
     [(''image'', iPhone_image [2, 2]), (''device'', iPhone_device), (''settings'', iPhone_settings)]"

definition mislabelled_file :: "(string \<times> properties) list" where
  "mislabelled_file =
     [(''image'', iPhone_device), (''device'', iPhone_image [2, 2]), (''settings'', iPhone_settings)]"

section \<open>Properties of the array model\<close>

lemma length_indices: "length (indices s) = prod_list s"
proof (induction s)
  case Nil show ?case by simp
next
  case (Cons n ns)
  have "length (concat (map (\<lambda>i. map ((#) i) (indices ns)) [0..<n])) = n * prod_list ns"
    by (simp add: length_concat comp_def Cons.IH sum_list_triv)
  then show ?case by simp
qed

lemma indices_bounds:
  "idx \<in> set (indices s) \<Longrightarrow> list_all2 (<) idx s"
  by (induction s arbitrary: idx) auto

lemma foldl_flat_acc:
  "length idx = length s \<Longrightarrow>
   foldl (\<lambda>acc (n, i). acc * n + i) (acc::nat) (zip s idx)
     = acc * prod_list s + foldl (\<lambda>acc (n, i). acc * n + i) 0 (zip s idx)"
proof (induction s arbitrary: idx acc)
  case Nil then show ?case by simp
next
  case (Cons n ns)
  then obtain i js where idx: "idx = i # js" "length js = length ns"
    by (cases idx) auto
  show ?case
    using Cons.IH [OF idx(2), of "acc * n + i"] Cons.IH [OF idx(2), of "i"]
    by (simp add: idx algebra_simps)
qed

lemma flat_index_Cons:
  "length js = length ns \<Longrightarrow>
   flat_index (n # ns) (i # js) = i * prod_list ns + flat_index ns js"
  using foldl_flat_acc [of js ns i] by (simp add: flat_index_def)

lemma concat_blocks: "concat (map (\<lambda>i. map (\<lambda>k. i * p + k) [0..<p]) [0..<n]) = [0..<n * p]"
proof (induction n)
  case 0 show ?case by simp
next
  case (Suc n)
  have "map (\<lambda>k. n * p + k) [0..<p] = [n * p..<n * p + p]"
    by (simp add: map_add_upt add.commute)
  moreover have "[0..<n * p] @ [n * p..<n * p + p] = [0..<n * p + p]"
    using upt_add_eq_append [of 0 "n * p" p] by simp
  ultimately show ?case using Suc by (simp add: add.commute)
qed

lemma map_flat_index_indices: "map (flat_index s) (indices s) = [0..<prod_list s]"
proof (induction s)
  case Nil show ?case by (simp add: flat_index_def)
next
  case (Cons n ns)
  have len: "\<And>idx. idx \<in> set (indices ns) \<Longrightarrow> length idx = length ns"
    using indices_bounds list_all2_lengthD by blast
  have "map (flat_index (n # ns)) (indices (n # ns))
      = concat (map (\<lambda>i. map (\<lambda>idx. i * prod_list ns + flat_index ns idx) (indices ns)) [0..<n])"
    by (simp add: map_concat comp_def flat_index_Cons len cong: map_cong)
  also have "\<dots> = concat (map (\<lambda>i. map (\<lambda>k. i * prod_list ns + k) (map (flat_index ns) (indices ns))) [0..<n])"
    by (simp add: comp_def)
  also have "\<dots> = [0..<n * prod_list ns]"
    by (simp only: Cons.IH concat_blocks)
  finally show ?case by simp
qed

lemma get_all: "wf_array a \<Longrightarrow> map (get a) (indices (np_shape a)) = elems a"
proof -
  assume wf: "wf_array a"
  have "map (get a) (indices (np_shape a)) = map ((!) (elems a)) (map (flat_index (np_shape a)) (indices (np_shape a)))"
    by (simp add: get_def comp_def)
  also have "\<dots> = map ((!) (elems a)) [0..<length (elems a)]"
    using wf by (simp add: map_flat_index_indices wf_array_def)
  also have "\<dots> = elems a" by (rule map_nth)
  finally show ?thesis .
qed

lemma map2_unit_dims:
  "list_all2 (<) idx s \<Longrightarrow> map2 (\<lambda>n i. if n = 1 then 0 else i) s idx = (idx::nat list)"
  by (induction idx s rule: list_all2_induct) auto

lemma bget_same: "idx \<in> set (indices (np_shape a)) \<Longrightarrow> bget a idx = get a idx"
proof -
  assume "idx \<in> set (indices (np_shape a))"
  then have b: "list_all2 (<) idx (np_shape a)" by (rule indices_bounds)
  then have "length idx = length (np_shape a)" by (rule list_all2_lengthD)
  then show ?thesis unfolding bget_def by (simp only: map2_unit_dims [OF b] diff_self_eq_0 drop_0)
qed

lemma broadcast_rev_refl: "broadcast_rev s s = Some s"
  by (induction s) auto

lemma broadcast_shapes_refl: "broadcast_shapes s s = Some s"
  by (simp add: broadcast_shapes_def broadcast_rev_refl)

lemma broadcast_rev_Nil2: "broadcast_rev s [] = Some s"
  by (cases s) auto

lemma broadcast_shapes_Nil: "broadcast_shapes s [] = Some s" "broadcast_shapes [] s = Some s"
  by (simp_all add: broadcast_shapes_def broadcast_rev_Nil2)

lemma bget_scalar: "bget (scalar x) idx = x"
  by (simp add: bget_def scalar_def get_def flat_index_def)

lemma np_binop_same_shape:
  assumes "np_shape a = np_shape b" "wf_array a" "wf_array b"
  shows "np_binop f a b = Inr (NDArray (np_shape a) (map2 f (elems a) (elems b)))"
proof -
  have "map (\<lambda>idx. f (bget a idx) (bget b idx)) (indices (np_shape a))
      = map (\<lambda>idx. f (get a idx) (get b idx)) (indices (np_shape a))"
    using assms(1) by (simp add: bget_same cong: map_cong)
  also have "\<dots> = map2 f (map (get a) (indices (np_shape a))) (map (get b) (indices (np_shape a)))"
    by (simp add: map2_map_map)
  also have "\<dots> = map2 f (elems a) (elems b)"
    using get_all [OF assms(2)] get_all [OF assms(3)] assms(1) by simp
  finally show ?thesis
    using assms(1) by (simp add: np_binop_def broadcast_shapes_refl)
qed

lemma np_binop_scalar_right:
  assumes "wf_array a"
  shows "np_binop f a (scalar y) = Inr (NDArray (np_shape a) (map (\<lambda>x. f x y) (elems a)))"
proof -
  have "map (\<lambda>idx. f (bget a idx) (bget (scalar y) idx)) (indices (np_shape a))
      = map (\<lambda>x. f x y) (map (get a) (indices (np_shape a)))"
    by (simp add: bget_same bget_scalar cong: map_cong)
  then show ?thesis
    using get_all [OF assms] by (simp add: np_binop_def broadcast_shapes_Nil scalar_def)
qed

lemma np_binop_scalar_left:
  assumes "wf_array b"
  shows "np_binop f (scalar x) b = Inr (NDArray (np_shape b) (map (f x) (elems b)))"
proof -
  have "map (\<lambda>idx. f (bget (scalar x) idx) (bget b idx)) (indices (np_shape b))
      = map (f x) (map (get b) (indices (np_shape b)))"
    by (simp add: bget_same bget_scalar cong: map_cong)
  then show ?thesis
    using get_all [OF assms] by (simp add: np_binop_def broadcast_shapes_Nil scalar_def)
qed


lemma wf_np_full: "wf_array (np_full s c)"
  by (simp add: wf_array_def np_full_def)

lemma scalar_np_full: "scalar x = np_full [] x"
  by (simp add: scalar_def np_full_def)

lemma np_binop_full_scalar:
  "np_binop f (np_full s c) (scalar y) = Inr (np_full s (f c y))"
  using np_binop_scalar_right [OF wf_np_full, of f s c y] by (simp add: np_full_def)

lemma np_binop_scalar_full:
  "np_binop f (scalar x) (np_full s c) = Inr (np_full s (f x c))"
  using np_binop_scalar_left [OF wf_np_full, of f x s c] by (simp add: np_full_def)

lemma broadcast_rev_None_iff:
  "broadcast_rev xs ys = None \<longleftrightarrow>
     (\<exists>i. i < length xs \<and> i < length ys \<and> xs ! i \<noteq> ys ! i \<and> xs ! i \<noteq> 1 \<and> ys ! i \<noteq> 1)"
proof (induction xs ys rule: broadcast_rev.induct)
  case (1 ys) show ?case by simp
next
  case (2 x xs) show ?case by simp
next
  case (3 x xs y ys)
  let ?P = "\<lambda>xs ys i. i < length xs \<and> i < length ys \<and> xs ! i \<noteq> ys ! i \<and> xs ! i \<noteq> (1::nat) \<and> ys ! i \<noteq> 1"
  have split: "(\<exists>i. ?P (x # xs) (y # ys) i) \<longleftrightarrow> ?P (x # xs) (y # ys) 0 \<or> (\<exists>i. ?P xs ys i)"
  proof
    assume "\<exists>i. ?P (x # xs) (y # ys) i"
    then obtain i where i: "?P (x # xs) (y # ys) i" ..
    show "?P (x # xs) (y # ys) 0 \<or> (\<exists>i. ?P xs ys i)"
    proof (cases i)
      case 0 with i show ?thesis by simp
    next
      case (Suc j) with i have "?P xs ys j" by simp
      then show ?thesis by blast
    qed
  next
    assume "?P (x # xs) (y # ys) 0 \<or> (\<exists>i. ?P xs ys i)"
    then show "\<exists>i. ?P (x # xs) (y # ys) i"
    proof
      assume "?P (x # xs) (y # ys) 0" then show ?thesis by blast
    next
      assume "\<exists>i. ?P xs ys i"
      then obtain j where "?P xs ys j" ..
      then have "?P (x # xs) (y # ys) (Suc j)" by simp
      then show ?thesis by blast
    qed
  qed
  show ?case
  proof (cases "x = y \<or> y = 1 \<or> x = 1")
    case True
    then have "broadcast_rev (x # xs) (y # ys) = None \<longleftrightarrow> broadcast_rev xs ys = None"
      by auto
    also have "\<dots> \<longleftrightarrow> (\<exists>i. ?P xs ys i)" using True 3 by auto
    also have "\<dots> \<longleftrightarrow> (\<exists>i. ?P (x # xs) (y # ys) i)" using True split by auto
    finally show ?thesis .
  next
    case False
    then have "broadcast_rev (x # xs) (y # ys) = None" by simp
    moreover have "?P (x # xs) (y # ys) 0" using False by simp
    ultimately show ?thesis by blast
  qed
qed

lemma broadcast_shapes_None_iff:
  "broadcast_shapes s t = None \<longleftrightarrow>
     (\<exists>i. i < length s \<and> i < length t \<and> rev s ! i \<noteq> rev t ! i \<and> rev s ! i \<noteq> 1 \<and> rev t ! i \<noteq> 1)"
  by (simp add: broadcast_shapes_def broadcast_rev_None_iff)

lemma broadcast_shapes_2d:
  "broadcast_shapes [h, w] [h', w'] = None \<longleftrightarrow>
     (h \<noteq> h' \<and> h \<noteq> 1 \<and> h' \<noteq> 1) \<or> (w \<noteq> w' \<and> w \<noteq> 1 \<and> w' \<noteq> 1)"
  by (auto simp: broadcast_shapes_def)

lemma np_binop_error_iff:
  "np_binop f a b = Inl e \<longleftrightarrow> e = ValueError \<and> broadcast_shapes (np_shape a) (np_shape b) = None"
  by (auto simp: np_binop_def split: option.splits)

lemma np_binop_shape:
  "np_binop f a b = Inr r \<Longrightarrow> broadcast_shapes (np_shape a) (np_shape b) = Some (np_shape r)"
  by (auto simp: np_binop_def split: option.splits)

lemma indices_2d: "indices [h, w] = concat (map (\<lambda>r. map (\<lambda>c. [r, c]) [0..<w]) [0..<h])"
  by (simp add: comp_def)

lemma map2_same: "map2 f xs (map g xs) = map (\<lambda>x. f x (g x)) xs"
  by (induction xs) auto

lemma replicate_indices: "replicate (prod_list s) z = map (\<lambda>idx. z) (indices s)"
  by (simp add: map_replicate_const length_indices)

lemma nth_map_indices:
  assumes "idx \<in> set (indices s)"
  shows "get (NDArray s (map g (indices s))) idx = g idx"
proof -
  from assms obtain k where k: "k < length (indices s)" "indices s ! k = idx"
    by (auto simp: in_set_conv_nth)
  have "map (flat_index s) (indices s) ! k = [0..<prod_list s] ! k"
    by (simp only: map_flat_index_indices)
  then have "flat_index s idx = k"
    using k by (simp add: length_indices)
  then show ?thesis using k by (simp add: get_def)
qed

lemma mem_indices_2d: "r < h \<Longrightarrow> col < w \<Longrightarrow> [r, col] \<in> set (indices [h, w])"
  by (force simp: indices_2d)

section \<open>Properties of the calibration pipeline\<close>

subsection \<open>Bias and dark-current correction\<close>

lemmas np_defs =
  np_subtract_def np_multiply_def np_true_divide_def np_binop_def broadcast_shapes_def
  scalar_def bget_def get_def flat_index_def

text \<open>
  Claim C1, as the code computes it: for a camera with bias 528 (the bias map holds
  it, or there is no bias map and the metadata give it), a dark-current map of any
  shape \<open>s\<close> that holds the constant rate 0.001 ADU/s (a scalar rate is the shape
  \<open>()\<close>) and an exposure time of 2 s, bias correction followed by dark-current
  correction maps the input value 600 to 600 - 528 - 0.001 * 2 = 71.998, at every
  pixel of the map.
\<close>

theorem bias_then_dark_example:
  assumes bias_value: "load_bias_map sp root_path = Inr (scalar (Fin 528)) \<or>
      (load_bias_map sp root_path = Inl FileNotFoundError \<and>
       load_bias_metadata sp root_path = Inr (scalar (Fin 528)))"
    and dark: "load_dark_current_map sp root_path = Inr (np_full s (Fin (1 / 1000)))"
  shows "(case correct_bias sp root_path (scalar (Fin 600)) of
            Inl e \<Rightarrow> Inl e
          | Inr d \<Rightarrow> correct_dark_current sp root_path d (scalar (Fin 2)))
         = Inr (np_full s (Fin (71998 / 1000)))"
proof -
  have "np_subtract (scalar (Fin 600)) (scalar (Fin 528)) = Inr (scalar (Fin 72))"
    by (simp add: np_defs)
  then have b: "correct_bias sp root_path (scalar (Fin 600)) = Inr (scalar (Fin 72))"
    using bias_value by (auto simp: correct_bias_def)
  have "np_multiply (np_full s (Fin (1 / 1000))) (scalar (Fin 2)) = Inr (np_full s (Fin (2 / 1000)))"
    by (simp add: np_multiply_def np_binop_full_scalar)
  moreover have "np_subtract (scalar (Fin 72)) (np_full s (Fin (2 / 1000)))
      = Inr (np_full s (Fin (71998 / 1000)))"
    by (simp add: np_subtract_def np_binop_scalar_full)
  ultimately have d: "correct_dark_current sp root_path (scalar (Fin 72)) (scalar (Fin 2))
      = Inr (np_full s (Fin (71998 / 1000)))"
    using dark by (simp add: correct_dark_current_def)
  show ?thesis by (simp add: b d)
qed

theorem bias_then_dark_example_witness:
  "load_bias_map example_package ''iPhone_SE'' = Inl FileNotFoundError \<and>
   load_bias_metadata example_package ''iPhone_SE'' = Inr (scalar (Fin 528)) \<and>
   load_dark_current_map example_package ''iPhone_SE'' = Inr (np_full [] (Fin (1 / 1000))) \<and>
   (case correct_bias example_package ''iPhone_SE'' (scalar (Fin 600)) of
      Inl e \<Rightarrow> Inl e
    | Inr d \<Rightarrow> correct_dark_current example_package ''iPhone_SE'' d (scalar (Fin 2)))
   = Inr (scalar (Fin (71998 / 1000)))"
  using bias_then_dark_example [of example_package "''iPhone_SE''" "[]"]
  by (simp add: example_package_def metadata_only_def scalar_np_full)

text \<open>
  Claim C1 as stated fails: on the example package the composition does not return
  69.998.
\<close>

theorem bias_then_dark_not_69998:
  "(case correct_bias example_package ''iPhone_SE'' (scalar (Fin 600)) of
      Inl e \<Rightarrow> Inl e
    | Inr d \<Rightarrow> correct_dark_current example_package ''iPhone_SE'' d (scalar (Fin 2)))
   \<noteq> Inr (scalar (Fin (69998 / 1000)))"
  by (simp add: example_package_def metadata_only_def correct_bias_def
      correct_dark_current_def np_defs)

subsection \<open>Where the calibration maps come from\<close>

text \<open>
  Claim C2, as the code has it.  Bias correction tries the bias map first; when the
  loader raises \<open>FileNotFoundError\<close> the bias comes from the metadata, and with a
  scalar bias and a well-formed array the correction then returns without error; an
  error of the metadata loader, or any other error of the map loader, is the
  stage's error.  No other stage has a fallback: when the loader of the dark-current
  map, the gain map, the flat-field map or the ISO look-up table raises an error, the
  stage fails with that very error (\<open>FileNotFoundError\<close> for a missing file).
\<close>

theorem calibration_map_resolution:
  "(load_bias_map sp root_path = Inr bias_value \<longrightarrow>
      correct_bias sp root_path data = np_subtract data bias_value) \<and>
   (load_bias_map sp root_path = Inl FileNotFoundError \<and>
    load_bias_metadata sp root_path = Inr bias_value \<longrightarrow>
      correct_bias sp root_path data = np_subtract data bias_value) \<and>
   (load_bias_map sp root_path = Inl FileNotFoundError \<and>
    load_bias_metadata sp root_path = Inr (scalar b) \<and> wf_array data \<longrightarrow>
      correct_bias sp root_path data
        = Inr (NDArray (np_shape data) (map (\<lambda>x. fsub x b) (elems data)))) \<and>
   (load_bias_map sp root_path = Inl FileNotFoundError \<and>
    load_bias_metadata sp root_path = Inl e \<longrightarrow>
      correct_bias sp root_path data = Inl e) \<and>
   (load_bias_map sp root_path = Inl e \<and> e \<noteq> FileNotFoundError \<longrightarrow>
      correct_bias sp root_path data = Inl e) \<and>
   (load_dark_current_map sp root_path = Inl e \<longrightarrow>
      correct_dark_current sp root_path data exposure_time = Inl e) \<and>
   (load_gain_map sp root_path = Inl e \<longrightarrow>
      convert_to_photoelectrons sp root_path data = Inl e) \<and>
   (load_flat_field_correction_map sp root_path = Inl e \<longrightarrow>
      correct_flatfield sp root_path data = Inl e) \<and>
   (load_iso_lookup_table sp root_path = Inl e \<longrightarrow>
      normalise_iso sp root_path data iso_values = Inl e)"
  by (simp add: correct_bias_def correct_dark_current_def convert_to_photoelectrons_def
      correct_flatfield_def normalise_iso_def np_subtract_def np_binop_scalar_right)

theorem calibration_map_resolution_witness:
  "correct_bias ((metadata_only (Fin 528))\<lparr>load_bias_map := (\<lambda>root_path. Inr (scalar (Fin 500)))\<rparr>)
      ''iPhone_SE'' (np_full [2] (Fin 600)) = Inr (np_full [2] (Fin 100)) \<and>
   correct_bias (metadata_only (Fin 528)) ''iPhone_SE'' (np_full [2] (Fin 600))
      = Inr (np_full [2] (Fin 72)) \<and>
   correct_bias ((metadata_only (Fin 528))\<lparr>load_bias_metadata := (\<lambda>root_path. Inl KeyError)\<rparr>)
      ''iPhone_SE'' (np_full [2] (Fin 600)) = Inl KeyError \<and>
   correct_bias ((metadata_only (Fin 528))\<lparr>load_bias_map := (\<lambda>root_path. Inl ValueError)\<rparr>)
      ''iPhone_SE'' (np_full [2] (Fin 600)) = Inl ValueError \<and>
   correct_dark_current (metadata_only (Fin 528)) ''iPhone_SE'' (np_full [2] (Fin 600))
      (scalar (Fin 2)) = Inl FileNotFoundError \<and>
   convert_to_photoelectrons (metadata_only (Fin 528)) ''iPhone_SE'' (np_full [2] (Fin 600))
      = Inl FileNotFoundError \<and>
   correct_flatfield (metadata_only (Fin 528)) ''iPhone_SE'' (np_full [2] (Fin 600))
      = Inl FileNotFoundError \<and>
   normalise_iso (metadata_only (Fin 528)) ''iPhone_SE'' (np_full [2] (Fin 600)) (PyInt 100)
      = Inl FileNotFoundError"
  using
    calibration_map_resolution [of
      "(metadata_only (Fin 528))\<lparr>load_bias_map := (\<lambda>root_path. Inr (scalar (Fin 500)))\<rparr>"
      "''iPhone_SE''" "scalar (Fin 500)" "np_full [2] (Fin 600)" "Fin 0" ValueError]
    calibration_map_resolution [of "metadata_only (Fin 528)" "''iPhone_SE''" "scalar (Fin 528)"
      "np_full [2] (Fin 600)" "Fin 528" FileNotFoundError "scalar (Fin 2)" "PyInt 100"]
    calibration_map_resolution [of
      "(metadata_only (Fin 528))\<lparr>load_bias_metadata := (\<lambda>root_path. Inl KeyError)\<rparr>"
      "''iPhone_SE''" "scalar (Fin 528)" "np_full [2] (Fin 600)" "Fin 528" KeyError]
    calibration_map_resolution [of
      "(metadata_only (Fin 528))\<lparr>load_bias_map := (\<lambda>root_path. Inl ValueError)\<rparr>"
      "''iPhone_SE''" "scalar (Fin 528)" "np_full [2] (Fin 600)" "Fin 528" ValueError]
  by (simp add: metadata_only_def np_subtract_def np_binop_scalar_right wf_array_def np_full_def)

text \<open>
  Claim C2 as stated fails for the gain: with no gain map file, gain conversion
  raises \<open>FileNotFoundError\<close>, whatever the metadata hold.
\<close>

theorem gain_has_no_metadata_fallback:
  "load_gain_map (metadata_only (Fin 528)) ''iPhone_SE'' = Inl FileNotFoundError \<and>
   load_bias_metadata (metadata_only (Fin 528)) ''iPhone_SE'' = Inr (scalar (Fin 528)) \<and>
   convert_to_photoelectrons (metadata_only (Fin 528)) ''iPhone_SE'' (scalar (Fin 600))
     = Inl FileNotFoundError"
  by (simp add: metadata_only_def convert_to_photoelectrons_def)

subsection \<open>Shapes of the data and of the maps\<close>

text \<open>
  Claim C4, as the code has it.  Gain conversion and flat-field correction check no
  shape: they divide and multiply with numpy's broadcasting.  With the maps loaded
  and the data clipped, each fails exactly when the shape of the data (clipped, for
  the flat field) and the shape of the map do not broadcast, and the error is numpy's
  \<open>ValueError\<close>; when the shapes broadcast the result has the broadcast shape.  In
  particular a map of shape (100,100) on data of shape (50,50) raises
  \<open>ValueError\<close>.
\<close>

theorem shape_mismatch_is_broadcast_failure:
  assumes gain: "load_gain_map sp root_path = Inr gain_map"
    and flat: "load_flat_field_correction_map sp root_path = Inr correction_map"
    and clip: "clip_data sp data = Inr data_clipped"
  shows
   "(convert_to_photoelectrons sp root_path data = Inl ValueError \<longleftrightarrow>
       broadcast_shapes (np_shape data) (np_shape gain_map) = None) \<and>
    (correct_flatfield sp root_path data = Inl ValueError \<longleftrightarrow>
       broadcast_shapes (np_shape data_clipped) (np_shape correction_map) = None) \<and>
    (\<forall>s. broadcast_shapes (np_shape data) (np_shape gain_map) = Some s \<longrightarrow>
       (\<exists>r. convert_to_photoelectrons sp root_path data = Inr r \<and> np_shape r = s)) \<and>
    (\<forall>s. broadcast_shapes (np_shape data_clipped) (np_shape correction_map) = Some s \<longrightarrow>
       (\<exists>r. correct_flatfield sp root_path data = Inr r \<and> np_shape r = s)) \<and>
    (np_shape data = [50, 50] \<and> np_shape gain_map = [100, 100] \<longrightarrow>
       convert_to_photoelectrons sp root_path data = Inl ValueError) \<and>
    (np_shape data_clipped = [50, 50] \<and> np_shape correction_map = [100, 100] \<longrightarrow>
       correct_flatfield sp root_path data = Inl ValueError)"
proof -
  have g: "convert_to_photoelectrons sp root_path data = np_binop fdiv data gain_map"
    using gain by (simp add: convert_to_photoelectrons_def np_true_divide_def)
  have f: "correct_flatfield sp root_path data = np_binop fmul data_clipped correction_map"
    using flat clip by (simp add: correct_flatfield_def np_multiply_def)
  have none: "broadcast_shapes [50, 50] [100, 100] = None"
    by (simp add: broadcast_shapes_def)
  have some: "\<And>h a b s. broadcast_shapes (np_shape a) (np_shape b) = Some s \<Longrightarrow>
      \<exists>r. np_binop h a b = Inr r \<and> np_shape r = s"
    by (simp add: np_binop_def)
  show ?thesis
    unfolding g f by (auto simp: np_binop_error_iff none dest: some)
qed

theorem shape_mismatch_is_broadcast_failure_witness:
  "convert_to_photoelectrons (package_with_map (np_full [100, 100] (Fin 2))) ''iPhone_SE''
      (np_full [50, 50] (Fin 600)) = Inl ValueError \<and>
   correct_flatfield (package_with_map (np_full [100, 100] (Fin 2))) ''iPhone_SE''
      (np_full [50, 50] (Fin 600)) = Inl ValueError \<and>
   broadcast_shapes [2, 2] [1, 2] = Some [2, 2] \<and>
   (\<exists>r. convert_to_photoelectrons (package_with_map (NDArray [1, 2] [Fin 2, Fin 4])) ''iPhone_SE''
      (np_full [2, 2] (Fin 600)) = Inr r \<and> np_shape r = [2, 2]) \<and>
   (\<exists>r. correct_flatfield (package_with_map (NDArray [1, 2] [Fin 2, Fin 4])) ''iPhone_SE''
      (np_full [2, 2] (Fin 600)) = Inr r \<and> np_shape r = [2, 2])"
  using
    shape_mismatch_is_broadcast_failure [of "package_with_map (np_full [100, 100] (Fin 2))"
      "''iPhone_SE''" "np_full [100, 100] (Fin 2)" "np_full [100, 100] (Fin 2)"
      "np_full [50, 50] (Fin 600)" "np_full [50, 50] (Fin 600)"]
    shape_mismatch_is_broadcast_failure [of "package_with_map (NDArray [1, 2] [Fin 2, Fin 4])"
      "''iPhone_SE''" "NDArray [1, 2] [Fin 2, Fin 4]" "NDArray [1, 2] [Fin 2, Fin 4]"
      "np_full [2, 2] (Fin 600)" "np_full [2, 2] (Fin 600)"]
  by (simp add: package_with_map_def metadata_only_def np_full_def broadcast_shapes_def)

text \<open>
  Claim C4 as stated fails: a map of shape (1,2) differs in shape from data of shape
  (2,2), and both stages return a result, the map's row applied to every row.
\<close>

theorem mismatched_gain_map_is_broadcast:
  "np_shape (NDArray [2, 2] [Fin 2, Fin 4, Fin 6, Fin 8]) \<noteq> np_shape (NDArray [1, 2] [Fin 2, Fin 4]) \<and>
   convert_to_photoelectrons (package_with_map (NDArray [1, 2] [Fin 2, Fin 4])) ''iPhone_SE''
     (NDArray [2, 2] [Fin 2, Fin 4, Fin 6, Fin 8])
     = Inr (NDArray [2, 2] [Fin 1, Fin 1, Fin 3, Fin 2]) \<and>
   correct_flatfield (package_with_map (NDArray [1, 2] [Fin 2, Fin 4])) ''iPhone_SE''
     (NDArray [2, 2] [Fin 2, Fin 4, Fin 6, Fin 8])
     = Inr (NDArray [2, 2] [Fin 4, Fin 16, Fin 12, Fin 32])"
  by code_simp

subsection \<open>The stages do not write to their input\<close>



















lemma value_of_load: "value_of (load_heap loaded h) = loaded"
  by (cases loaded) (simp_all add: value_of_def load_heap_def)

lemma binop_heap_fresh:
  "a < length h \<Longrightarrow> value_of (binop_heap op (h @ [b]) a (length h)) = op (h ! a) b"
  by (cases "op (h ! a) b") (simp_all add: value_of_def binop_heap_def nth_append)

lemma correct_bias_heap_value:
  "data < length h \<Longrightarrow>
   value_of (correct_bias_heap sp root_path h data) = correct_bias sp root_path (h ! data)"
  by (cases "load_bias_map sp root_path"; cases "load_bias_metadata sp root_path")
     (simp_all add: correct_bias_heap_def correct_bias_def load_heap_def binop_heap_fresh,
      simp_all add: value_of_def)

lemma convert_to_photoelectrons_heap_value:
  "data < length h \<Longrightarrow>
   value_of (convert_to_photoelectrons_heap sp root_path h data)
     = convert_to_photoelectrons sp root_path (h ! data)"
  by (cases "load_gain_map sp root_path")
     (simp_all add: convert_to_photoelectrons_heap_def convert_to_photoelectrons_def
        load_heap_def binop_heap_fresh, simp_all add: value_of_def)

lemma correct_dark_current_heap_value:
  assumes "data < length h" "exposure_time < length h"
  shows "value_of (correct_dark_current_heap sp root_path h data exposure_time)
     = correct_dark_current sp root_path (h ! data) (h ! exposure_time)"
proof (cases "load_dark_current_map sp root_path")
  case (Inl e)
  then show ?thesis
    by (simp add: correct_dark_current_heap_def correct_dark_current_def load_heap_def value_of_def)
next
  case (Inr dark_current)
  show ?thesis
  proof (cases "np_multiply dark_current (h ! exposure_time)")
    case (Inl e)
    then show ?thesis using Inr assms
      by (simp add: correct_dark_current_heap_def correct_dark_current_def load_heap_def
          binop_heap_def nth_append value_of_def)
  next
    case (Inr dark_total)
    have "value_of (binop_heap np_subtract ((h @ [dark_current]) @ [dark_total]) data
            (length (h @ [dark_current])))
          = np_subtract ((h @ [dark_current]) ! data) dark_total"
      using assms by (intro binop_heap_fresh) simp
    then show ?thesis using Inr \<open>load_dark_current_map sp root_path = Inr dark_current\<close> assms
      by (simp add: correct_dark_current_heap_def correct_dark_current_def load_heap_def
          binop_heap_def nth_append)
  qed
qed

lemma correct_flatfield_heap_value:
  assumes "data < length h"
  shows "value_of (correct_flatfield_heap sp (helpers_of sp) root_path h data)
     = correct_flatfield sp root_path (h ! data)"
proof (cases "load_flat_field_correction_map sp root_path")
  case (Inl e)
  then show ?thesis
    by (simp add: correct_flatfield_heap_def correct_flatfield_def load_heap_def value_of_def)
next
  case (Inr correction_map)
  show ?thesis
  proof (cases "clip_data sp (h ! data)")
    case (Inl e)
    then show ?thesis using Inr assms
      by (simp add: correct_flatfield_heap_def correct_flatfield_def load_heap_def
          helpers_of_def nth_append value_of_def)
  next
    case (Inr data_clipped)
    then show ?thesis using \<open>load_flat_field_correction_map sp root_path = Inr correction_map\<close> assms
      by (simp add: correct_flatfield_heap_def correct_flatfield_def load_heap_def
          helpers_of_def nth_append binop_heap_def value_of_def split: sum.splits)
  qed
qed

lemma normalise_iso_heap_value:
  assumes "data < length h"
  shows "value_of (normalise_iso_heap sp (helpers_of sp) root_path h data iso_values)
     = normalise_iso sp root_path (h ! data) iso_values"
proof (cases "load_iso_lookup_table sp root_path")
  case (Inl e)
  then show ?thesis
    by (simp add: normalise_iso_heap_def normalise_iso_def load_heap_def value_of_def)
next
  case (Inr lookup_table)
  then show ?thesis using assms
    by (simp add: normalise_iso_heap_def normalise_iso_def helpers_of_def nth_append
        value_of_load load_heap_def [of "Inr lookup_table"])
qed



subsection \<open>The branch of the ISO normalisation\<close>

lemma normalise_iso_python_number:
  "normalise_iso sp root_path data (PyInt n) =
     (case load_iso_lookup_table sp root_path of
        Inl e \<Rightarrow> Inl e
      | Inr lookup_table \<Rightarrow> normalise_single_iso sp data (PyInt n) lookup_table)"
  "normalise_iso sp root_path data (PyFloat x) =
     (case load_iso_lookup_table sp root_path of
        Inl e \<Rightarrow> Inl e
      | Inr lookup_table \<Rightarrow> normalise_single_iso sp data (PyFloat x) lookup_table)"
  "normalise_iso sp root_path data (NpFloat64 x) =
     (case load_iso_lookup_table sp root_path of
        Inl e \<Rightarrow> Inl e
      | Inr lookup_table \<Rightarrow> normalise_single_iso sp data (NpFloat64 x) lookup_table)"
  by (simp_all add: normalise_iso_def split: sum.split)

lemma normalise_iso_per_frame_values:
  "normalise_iso sp root_path data (NpArray a) =
     (case load_iso_lookup_table sp root_path of
        Inl e \<Rightarrow> Inl e
      | Inr lookup_table \<Rightarrow> normalise_multiple_iso sp data (NpArray a) lookup_table)"
  "normalise_iso sp root_path data (PyList xs) =
     (case load_iso_lookup_table sp root_path of
        Inl e \<Rightarrow> Inl e
      | Inr lookup_table \<Rightarrow> normalise_multiple_iso sp data (PyList xs) lookup_table)"
  by (simp_all add: normalise_iso_def split: sum.split)

text \<open>
  Claim C8 at the input where the code leaves it: an ISO value that is a numpy
  integer scalar, such as \<open>numpy.int64(100)\<close>, is a single number and not an array of
  per-frame values, yet it is no instance of \<open>int\<close> or \<open>float\<close>, and
  \<open>normalise_iso\<close> hands it to \<open>normalise_multiple_iso\<close>.
\<close>

theorem normalise_iso_numpy_integer:
  "normalise_iso sp root_path data (NpInteger n) =
     (case load_iso_lookup_table sp root_path of
        Inl e \<Rightarrow> Inl e
      | Inr lookup_table \<Rightarrow> normalise_multiple_iso sp data (NpInteger n) lookup_table)"
  by (simp add: normalise_iso_def split: sum.split)

section \<open>Properties of the ISO normalisation script\<close>











text \<open>
  What is 1 by construction is the ratio of the data, not the entry of the table: at
  the image of the lowest ISO speed every ratio is \<open>x / x\<close>, which is 1 wherever
  the mean \<open>x\<close> is finite and not zero.
\<close>

lemma mem_indices_3d:
  "k < n \<Longrightarrow> r < h \<Longrightarrow> c < w \<Longrightarrow> [k, r, c] \<in> set (indices [n, h, w])"
  by (force simp: comp_def)

lemma flat_bound: "r < h \<Longrightarrow> c < w \<Longrightarrow> r * w + c < h * (w::nat)"
proof -
  assume "r < h" "c < w"
  then have "r * w + c < r * w + w" by simp
  also have "\<dots> = (r + 1) * w" by simp
  also have "\<dots> \<le> h * w" using \<open>r < h\<close> by (intro mult_le_mono1) simp
  finally show ?thesis .
qed

lemma ratios_at_lowest_iso:
  assumes shape: "np_shape means = [n, h, w]" and wf: "wf_array means"
    and argmin: "np_argmin isos = Inr k" and k: "k < n" and r: "r < h" and c: "c < w"
  shows "\<exists>ratios. ratios_of isos means = Inr ratios \<and> np_shape ratios = [n, h, w] \<and>
     get ratios [k, r, c] = fdiv (get means [k, r, c]) (get means [k, r, c])"
proof -
  let ?sub = "NDArray [h, w] (take (h * w) (drop (k * (h * w)) (elems means)))"
  let ?res = "NDArray [n, h, w]
      (map (\<lambda>idx. fdiv (bget means idx) (bget ?sub idx)) (indices [n, h, w]))"
  have sub: "subarray means k = Inr ?sub"
    using shape k by (simp add: subarray_def)
  have bc: "broadcast_shapes [n, h, w] [h, w] = Some [n, h, w]"
    by (simp add: broadcast_shapes_def)
  have res: "ratios_of isos means = Inr ?res"
    using argmin sub shape bc
    by (simp add: ratios_of_def np_true_divide_def np_binop_def del: indices.simps)
  have mem: "[k, r, c] \<in> set (indices [n, h, w])"
    using k r c by (rule mem_indices_3d)
  have len: "length (elems means) = n * (h * w)"
    using wf shape by (simp add: wf_array_def)
  have m: "bget means [k, r, c] = get means [k, r, c]"
    using mem bget_same [of "[k, r, c]" means] shape by simp
  have gm: "get means [k, r, c] = elems means ! (k * (h * w) + (r * w + c))"
    using shape by (simp add: get_def flat_index_def algebra_simps)
  have "map2 (\<lambda>n i. if n = 1 then 0 else i) [h, w] [r, c] = [r, c]"
    using r c by (intro map2_unit_dims) simp
  then have "bget ?sub [k, r, c] = get ?sub [r, c]"
    unfolding bget_def by (simp del: One_nat_def)
  also have "\<dots> = take (h * w) (drop (k * (h * w)) (elems means)) ! (r * w + c)"
    by (simp add: get_def flat_index_def)
  also have "\<dots> = drop (k * (h * w)) (elems means) ! (r * w + c)"
    using flat_bound [OF r c] by simp
  also have "\<dots> = elems means ! (k * (h * w) + (r * w + c))"
    using k len by (intro nth_drop) simp
  finally have s: "bget ?sub [k, r, c] = get means [k, r, c]" using gm by simp
  have "get ?res [k, r, c] = fdiv (bget means [k, r, c]) (bget ?sub [k, r, c])"
    using nth_map_indices [OF mem] by simp
  then have "get ?res [k, r, c] = fdiv (get means [k, r, c]) (get means [k, r, c])"
    by (simp only: m s)
  then show ?thesis using res by (intro exI [of _ ?res]) simp
qed

lemma ratio_at_lowest_iso_is_one:
  assumes "np_shape means = [n, h, w]" "wf_array means" "np_argmin isos = Inr k"
    "k < n" "r < h" "c < w" "get means [k, r, c] = Fin q" "q \<noteq> 0"
  shows "\<exists>ratios. ratios_of isos means = Inr ratios \<and> get ratios [k, r, c] = Fin 1"
  using ratios_at_lowest_iso [OF assms(1-6)] assms(7,8) by auto

section \<open>Properties of the camera metadata\<close>

subsection \<open>The Bayer map\<close>

lemma setitem_step2_map:
  assumes "2 \<le> length s" "to_int64 v = Inr n"
  shows "setitem_step2 (NDArray s (map g (indices s))) r0 c0 v
     = Inr (NDArray s (map (\<lambda>idx. if in_slice r0 c0 idx then n else g idx) (indices s)))"
  using assms by (simp add: setitem_step2_def map2_same)

lemma in_slice_parity:
  "in_slice 0 0 idx \<longleftrightarrow> even (idx ! 0) \<and> even (idx ! Suc 0)"
  "in_slice 0 (Suc 0) idx \<longleftrightarrow> even (idx ! 0) \<and> odd (idx ! Suc 0)"
  "in_slice (Suc 0) 0 idx \<longleftrightarrow> odd (idx ! 0) \<and> even (idx ! Suc 0)"
  "in_slice (Suc 0) (Suc 0) idx \<longleftrightarrow> odd (idx ! 0) \<and> odd (idx ! Suc 0)"
  unfolding in_slice_def One_nat_def by presburger+

text \<open>
  For a shape of two or more dimensions and a 2\<times>2 pattern of integers that fit 64
  bits, the element at a multi-index is the pattern's entry at the parities of the
  first two indices.
\<close>

lemma generate_bayer_map_tiles:
  assumes shape: "shape img = JInts ns" "2 \<le> length ns" "\<forall>n \<in> set ns. 0 \<le> n"
    and pattern: "bayer_pattern img = JRows [[a, b], [c, d]]"
    and range: "int64 a" "int64 b" "int64 c" "int64 d"
  shows "generate_bayer_map img
     = Inr (NDArray (map nat ns)
         (map (\<lambda>idx. [[a, b], [c, d]] ! (idx ! 0 mod 2) ! (idx ! 1 mod 2)) (indices (map nat ns))))"
proof -
  let ?s = "map nat ns"
  have len: "2 \<le> length ?s" using shape(2) by simp
  have z: "np_zeros (shape img) = Inr (NDArray ?s (map (\<lambda>idx. 0) (indices ?s)))"
    using shape by (auto simp: replicate_indices)
  have conv: "to_int64 (IntEntry a) = Inr a" "to_int64 (IntEntry b) = Inr b"
    "to_int64 (IntEntry c) = Inr c" "to_int64 (IntEntry d) = Inr d"
    using range by simp_all
  have sub: "subscript2 (bayer_pattern img) 0 0 = Inr (IntEntry a)"
    "subscript2 (bayer_pattern img) 0 1 = Inr (IntEntry b)"
    "subscript2 (bayer_pattern img) 1 0 = Inr (IntEntry c)"
    "subscript2 (bayer_pattern img) 1 1 = Inr (IntEntry d)"
    by (simp_all add: pattern)
  have tile: "\<And>idx::nat list.
      (if in_slice 1 1 idx then d else if in_slice 1 0 idx then c
       else if in_slice 0 1 idx then b else if in_slice 0 0 idx then a else 0)
      = [[a, b], [c, d]] ! (idx ! 0 mod 2) ! (idx ! 1 mod 2)"
  proof -
    fix idx :: "nat list"
    have m: "\<And>n::nat. even n \<Longrightarrow> n mod 2 = 0" "\<And>n::nat. odd n \<Longrightarrow> n mod 2 = Suc 0"
      by presburger+
    show "(if in_slice 1 1 idx then d else if in_slice 1 0 idx then c
       else if in_slice 0 1 idx then b else if in_slice 0 0 idx then a else 0)
      = [[a, b], [c, d]] ! (idx ! 0 mod 2) ! (idx ! 1 mod 2)"
      by (cases "even (idx ! 0)"; cases "even (idx ! Suc 0)") (simp_all add: in_slice_parity m)
  qed
  have step: "\<And>g r0 c0 n. subscript2 (bayer_pattern img) r0 c0 = Inr (IntEntry n) \<Longrightarrow>
      to_int64 (IntEntry n) = Inr n \<Longrightarrow>
      assign_pattern img r0 c0 (NDArray ?s (map g (indices ?s)))
        = Inr (NDArray ?s (map (\<lambda>idx. if in_slice r0 c0 idx then n else g idx) (indices ?s)))"
    using setitem_step2_map [OF len] by (simp add: assign_pattern_def)
  have "generate_bayer_map img
      = Inr (NDArray ?s (map (\<lambda>idx.
          if in_slice 1 1 idx then d else if in_slice 1 0 idx then c
          else if in_slice 0 1 idx then b else if in_slice 0 0 idx then a else 0) (indices ?s)))"
    unfolding generate_bayer_map_def z
    by (simp only: step [OF sub(1) conv(1)] step [OF sub(2) conv(2)] step [OF sub(3) conv(3)]
        step [OF sub(4) conv(4)] sum.case)
  then show ?thesis by (simp only: tile)
qed

lemma length_filter_even_upt: "length (filter even [0..<n]) = (n + 1) div 2"
  by (induction n) auto

lemma length_filter_odd_upt: "length (filter odd [0..<n]) = n div 2"
  by (induction n) auto

lemma length_filter_rows:
  "length (filter (\<lambda>idx. P (idx ! 0) \<and> Q (idx ! 1)) (indices [h, w]))
     = length (filter P [0..<h]) * length (filter Q [0..<w])"
proof -
  have row: "\<And>r. length (filter (\<lambda>idx. P (idx ! 0) \<and> Q (idx ! 1)) (map (\<lambda>c. [r, c]) [0..<w]))
      = (if P r then length (filter Q [0..<w]) else 0)"
    by (simp add: filter_map comp_def)
  have "length (filter (\<lambda>idx. P (idx ! 0) \<and> Q (idx ! 1)) (indices [h, w]))
      = sum_list (map (\<lambda>r. if P r then length (filter Q [0..<w]) else 0) [0..<h])"
    by (simp only: indices_2d filter_concat length_concat map_map comp_def row)
  also have "\<dots> = length (filter P [0..<h]) * length (filter Q [0..<w])"
    by (induction h) auto
  finally show ?thesis .
qed

lemma count_tiles:
  assumes "\<And>idx. v = T idx \<longleftrightarrow> P (idx ! 0) \<and> Q (idx ! 1)"
  shows "count_list (map T (indices [h, w])) v
     = length (filter P [0..<h]) * length (filter Q [0..<w])"
proof -
  have "count_list (map T (indices [h, w])) v
      = length (filter (\<lambda>idx. v = T idx) (indices [h, w]))"
    by (simp add: count_list_eq_length_filter filter_map comp_def)
  then show ?thesis by (simp only: assms length_filter_rows)
qed

lemma tile_value:
  "[[a, b], [c, d]] ! (r mod 2) ! (col mod 2)
     = (if even (r::nat) then (if even (col::nat) then a else b) else (if even col then c else d))"
proof -
  have m: "\<And>n::nat. even n \<Longrightarrow> n mod 2 = 0" "\<And>n::nat. odd n \<Longrightarrow> n mod 2 = Suc 0"
    by presburger+
  show ?thesis by (simp add: m)
qed

lemma remainder_bound:
  "((h + 1) div 2) * ((w + 1) div 2)
     \<le> (h div 2) * (w div 2) + ((h mod 2) * w + (w mod 2) * (h::nat))"
proof -
  define p e where "p = h div 2" and "e = h mod 2"
  define q f where "q = w div 2" and "f = w mod 2"
  have h: "h = 2 * p + e" and e: "e = 0 \<or> e = 1"
    unfolding p_def e_def by presburger+
  have w: "w = 2 * q + f" and f: "f = 0 \<or> f = 1"
    unfolding q_def f_def by presburger+
  show ?thesis using e f by (auto simp: h w algebra_simps)
qed

text \<open>
  Claim C6, as the code has it.  For every two-dimensional shape \<open>(h, w)\<close> and every
  2\<times>2 Bayer pattern of four distinct channel indices (integers that fit 64 bits),
  \<open>generate_bayer_map\<close> returns an array of that shape in which the pixel at row
  \<open>r\<close>, column \<open>col\<close> holds \<open>pattern[r mod 2][col mod 2]\<close>.  Its values are among the
  four of the pattern, so each value sits in one quadrant of every 2\<times>2 tile; the
  four values occur \<open>\<lceil>h/2\<rceil>\<lceil>w/2\<rceil>\<close>, \<open>\<lceil>h/2\<rceil>\<lfloor>w/2\<rfloor>\<close>, \<open>\<lfloor>h/2\<rfloor>\<lceil>w/2\<rceil>\<close> and
  \<open>\<lfloor>h/2\<rfloor>\<lfloor>w/2\<rfloor>\<close> times, totals that differ by at most the number of pixels in
  the odd row and the odd column, \<open>(h mod 2) w + (w mod 2) h\<close>.  The output has
  exactly 4 distinct values when it has at least two rows and two columns.
\<close>

theorem bayer_map_tiles_pattern:
  assumes shape: "shape img = JInts [int h, int w]"
    and pattern: "bayer_pattern img = JRows [[a, b], [c, d]]"
    and distinct: "distinct [a, b, c, d]"
    and range: "int64 a" "int64 b" "int64 c" "int64 d"
  shows "\<exists>m. generate_bayer_map img = Inr m \<and> np_shape m = [h, w] \<and> wf_array m \<and>
      (\<forall>r < h. \<forall>col < w. get m [r, col] = [[a, b], [c, d]] ! (r mod 2) ! (col mod 2)) \<and>
      set (elems m) \<subseteq> {a, b, c, d} \<and>
      (2 \<le> h \<and> 2 \<le> w \<longrightarrow> card (set (elems m)) = 4) \<and>
      count_list (elems m) a = ((h + 1) div 2) * ((w + 1) div 2) \<and>
      count_list (elems m) b = ((h + 1) div 2) * (w div 2) \<and>
      count_list (elems m) c = (h div 2) * ((w + 1) div 2) \<and>
      count_list (elems m) d = (h div 2) * (w div 2) \<and>
      (\<forall>u \<in> {a, b, c, d}. \<forall>v \<in> {a, b, c, d}.
         count_list (elems m) u \<le> count_list (elems m) v + ((h mod 2) * w + (w mod 2) * h))"
proof -
  let ?T = "\<lambda>idx::nat list. [[a, b], [c, d]] ! (idx ! 0 mod 2) ! (idx ! 1 mod 2)"
  let ?m = "NDArray [h, w] (map ?T (indices [h, w]))"
  let ?R = "(h mod 2) * w + (w mod 2) * h"
  have gen: "generate_bayer_map img = Inr ?m"
    using generate_bayer_map_tiles [OF shape _ _ pattern range] by simp
  have wf: "wf_array ?m"
    by (simp add: wf_array_def length_indices del: indices.simps)
  have px: "\<forall>r < h. \<forall>col < w. get ?m [r, col] = [[a, b], [c, d]] ! (r mod 2) ! (col mod 2)"
    using nth_map_indices [OF mem_indices_2d, of _ h _ w ?T] by simp
  note T = tile_value
  have sub: "set (elems ?m) \<subseteq> {a, b, c, d}"
    by (auto simp: T simp del: indices.simps)
  have ca: "count_list (elems ?m) a = ((h + 1) div 2) * ((w + 1) div 2)"
    using distinct count_tiles [of a ?T even even h w]
    by (auto simp: T length_filter_even_upt simp del: indices.simps)
  have cb: "count_list (elems ?m) b = ((h + 1) div 2) * (w div 2)"
    using distinct count_tiles [of b ?T even odd h w]
    by (auto simp: T length_filter_even_upt length_filter_odd_upt simp del: indices.simps)
  have cc: "count_list (elems ?m) c = (h div 2) * ((w + 1) div 2)"
    using distinct count_tiles [of c ?T odd even h w]
    by (auto simp: T length_filter_even_upt length_filter_odd_upt simp del: indices.simps)
  have cd: "count_list (elems ?m) d = (h div 2) * (w div 2)"
    using distinct count_tiles [of d ?T odd odd h w]
    by (auto simp: T length_filter_odd_upt simp del: indices.simps)
  have four: "card (set (elems ?m)) = 4" if big: "2 \<le> h \<and> 2 \<le> w"
  proof -
    have pos: "0 < h div 2" "0 < w div 2" "0 < (h + 1) div 2" "0 < (w + 1) div 2"
      using big by presburger+
    have "0 < count_list (elems ?m) a" "0 < count_list (elems ?m) b"
      "0 < count_list (elems ?m) c" "0 < count_list (elems ?m) d"
      unfolding ca cb cc cd using pos by simp_all
    moreover have "\<And>x. 0 < count_list (elems ?m) x \<Longrightarrow> x \<in> set (elems ?m)"
      using count_list_0_iff [of "elems ?m"] by fastforce
    ultimately have "a \<in> set (elems ?m)" "b \<in> set (elems ?m)"
      "c \<in> set (elems ?m)" "d \<in> set (elems ?m)"
      by blast+
    with sub have "set (elems ?m) = {a, b, c, d}" by blast
    then show ?thesis using distinct by simp
  qed
  have le: "(h div 2) * (w div 2) \<le> (h div 2) * ((w + 1) div 2)"
    "(h div 2) * (w div 2) \<le> ((h + 1) div 2) * (w div 2)"
    "(h div 2) * ((w + 1) div 2) \<le> ((h + 1) div 2) * ((w + 1) div 2)"
    "((h + 1) div 2) * (w div 2) \<le> ((h + 1) div 2) * ((w + 1) div 2)"
    by (intro mult_le_mono div_le_mono; simp)+
  define A B C D where "A = count_list (elems ?m) a" and "B = count_list (elems ?m) b"
    and "C = count_list (elems ?m) c" and "D = count_list (elems ?m) d"
  have order: "D \<le> B" "D \<le> C" "B \<le> A" "C \<le> A" "A \<le> D + ?R"
    unfolding A_def B_def C_def D_def ca cb cc cd
    using le remainder_bound [of h w] by simp_all
  have bound: "\<forall>u \<in> {a, b, c, d}. \<forall>v \<in> {a, b, c, d}.
      count_list (elems ?m) u \<le> count_list (elems ?m) v + ?R"
  proof (intro ballI)
    fix u v assume "u \<in> {a, b, c, d}" "v \<in> {a, b, c, d}"
    then have "count_list (elems ?m) u \<in> {A, B, C, D}" "count_list (elems ?m) v \<in> {A, B, C, D}"
      unfolding A_def B_def C_def D_def by blast+
    then have "count_list (elems ?m) u \<le> A" "D \<le> count_list (elems ?m) v"
      using order by auto
    then show "count_list (elems ?m) u \<le> count_list (elems ?m) v + ?R"
      using order(5) by linarith
  qed
  show ?thesis
  proof (intro exI [of _ ?m] conjI)
    show "generate_bayer_map img = Inr ?m" by (rule gen)
    show "np_shape ?m = [h, w]" by simp
    show "wf_array ?m" by (rule wf)
    show "\<forall>r < h. \<forall>col < w. get ?m [r, col] = [[a, b], [c, d]] ! (r mod 2) ! (col mod 2)"
      by (rule px)
    show "set (elems ?m) \<subseteq> {a, b, c, d}" by (rule sub)
    show "2 \<le> h \<and> 2 \<le> w \<longrightarrow> card (set (elems ?m)) = 4" using four by blast
    show "count_list (elems ?m) a = ((h + 1) div 2) * ((w + 1) div 2)" by (rule ca)
    show "count_list (elems ?m) b = ((h + 1) div 2) * (w div 2)" by (rule cb)
    show "count_list (elems ?m) c = (h div 2) * ((w + 1) div 2)" by (rule cc)
    show "count_list (elems ?m) d = (h div 2) * (w div 2)" by (rule cd)
    show "\<forall>u \<in> {a, b, c, d}. \<forall>v \<in> {a, b, c, d}.
      count_list (elems ?m) u \<le> count_list (elems ?m) v + ?R" by (rule bound)
  qed
qed

theorem bayer_map_tiles_pattern_witness:
  "shape (iPhone_Image [3, 5]) = JInts [int 3, int 5] \<and>
   bayer_pattern (iPhone_Image [3, 5]) = JRows [[0, 1], [2, 3]] \<and>
   distinct [0, 1, 2, 3 :: int] \<and> int64 0 \<and> int64 1 \<and> int64 2 \<and> int64 3 \<and>
   generate_bayer_map (iPhone_Image [3, 5])
     = Inr (NDArray [3, 5] [0, 1, 0, 1, 0, 2, 3, 2, 3, 2, 0, 1, 0, 1, 0]) \<and>
   card (set [0, 1, 0, 1, 0, 2, 3, 2, 3, 2, 0, 1, 0, 1, 0 :: int]) = 4 \<and>
   count_list [0, 1, 0, 1, 0, 2, 3, 2, 3, 2, 0, 1, 0, 1, 0 :: int] 0 = 6 \<and>
   count_list [0, 1, 0, 1, 0, 2, 3, 2, 3, 2, 0, 1, 0, 1, 0 :: int] 3 = 2"
proof -
  have hyp: "shape (iPhone_Image [3, 5]) = JInts [int 3, int 5]"
    "bayer_pattern (iPhone_Image [3, 5]) = JRows [[0, 1], [2, 3]]"
    "distinct [0, 1, 2, 3 :: int]" "int64 0" "int64 1" "int64 2" "int64 3"
    by (simp_all add: iPhone_Image_def int64_def)
  have ev: "generate_bayer_map (iPhone_Image [3, 5])
     = Inr (NDArray [3, 5] [0, 1, 0, 1, 0, 2, 3, 2, 3, 2, 0, 1, 0, 1, 0])"
    by code_simp
  from bayer_map_tiles_pattern [OF hyp]
  have "card (set [0, 1, 0, 1, 0, 2, 3, 2, 3, 2, 0, 1, 0, 1, 0 :: int]) = 4 \<and>
    count_list [0, 1, 0, 1, 0, 2, 3, 2, 3, 2, 0, 1, 0, 1, 0 :: int] 0 = 6 \<and>
    count_list [0, 1, 0, 1, 0, 2, 3, 2, 3, 2, 0, 1, 0, 1, 0 :: int] 3 = 2"
    unfolding ev by auto
  with hyp ev show ?thesis by simp
qed

text \<open>
  Claim C6 as stated fails for a shape with fewer than two rows or columns: the
  Bayer map of a sensor of shape (1, 1) has one value, not four.
\<close>

theorem bayer_map_of_one_pixel:
  "generate_bayer_map (iPhone_Image [1, 1]) = Inr (NDArray [1, 1] [0]) \<and>
   card (set (elems (NDArray [1, 1] [0 :: int]))) = 1"
proof -
  have "generate_bayer_map (iPhone_Image [1, 1]) = Inr (NDArray [1, 1] [0])"
    by code_simp
  then show ?thesis by simp
qed

subsection \<open>Constructing a camera\<close>

lemma map_of_Some_key: "map_of kwargs k = Some v \<Longrightarrow> k \<in> set (map fst kwargs)"
  by (auto dest: map_of_SomeD intro: rev_image_eqI)

lemma map_of_None_key: "map_of kwargs k = None \<longleftrightarrow> k \<notin> set (map fst kwargs)"
  by (simp add: map_of_eq_None_iff)

lemma new_Device_Inr_iff:
  "(\<exists>d. new_Device kwargs = Inr d) \<longleftrightarrow> set (map fst kwargs) = set Device_fields"
proof
  assume "\<exists>d. new_Device kwargs = Inr d"
  then have sub: "set (map fst kwargs) \<subseteq> set Device_fields"
    and "map_of kwargs ''manufacturer'' \<noteq> None" "map_of kwargs ''name'' \<noteq> None"
    by (auto simp: new_Device_def split: if_splits option.splits)
  then have "set Device_fields \<subseteq> set (map fst kwargs)"
    unfolding map_of_None_key by (simp add: Device_fields_def)
  with sub show "set (map fst kwargs) = set Device_fields" by blast
next
  assume eq: "set (map fst kwargs) = set Device_fields"
  then have "map_of kwargs ''manufacturer'' \<noteq> None" "map_of kwargs ''name'' \<noteq> None"
    unfolding map_of_None_key by (simp_all add: Device_fields_def)
  then show "\<exists>d. new_Device kwargs = Inr d"
    using eq by (auto simp: new_Device_def)
qed

lemma new_Image_Inr_iff:
  "(\<exists>i. new_Image kwargs = Inr i) \<longleftrightarrow> set (map fst kwargs) = set Image_fields"
proof
  assume "\<exists>i. new_Image kwargs = Inr i"
  then have sub: "set (map fst kwargs) \<subseteq> set Image_fields"
    and "map_of kwargs ''shape'' \<noteq> None" "map_of kwargs ''raw_extension'' \<noteq> None"
      "map_of kwargs ''bias'' \<noteq> None" "map_of kwargs ''bayer_pattern'' \<noteq> None"
      "map_of kwargs ''bit_depth'' \<noteq> None"
    by (auto simp: new_Image_def split: if_splits option.splits)
  then have "set Image_fields \<subseteq> set (map fst kwargs)"
    unfolding map_of_None_key by (simp add: Image_fields_def)
  with sub show "set (map fst kwargs) = set Image_fields" by blast
next
  assume eq: "set (map fst kwargs) = set Image_fields"
  then have "map_of kwargs ''shape'' \<noteq> None" "map_of kwargs ''raw_extension'' \<noteq> None"
      "map_of kwargs ''bias'' \<noteq> None" "map_of kwargs ''bayer_pattern'' \<noteq> None"
      "map_of kwargs ''bit_depth'' \<noteq> None"
    unfolding map_of_None_key by (simp_all add: Image_fields_def)
  then show "\<exists>i. new_Image kwargs = Inr i"
    using eq by (auto simp: new_Image_def)
qed

lemma new_Settings_Inr_iff:
  "(\<exists>s. new_Settings kwargs = Inr s) \<longleftrightarrow> set (map fst kwargs) = set Settings_fields"
proof
  assume "\<exists>s. new_Settings kwargs = Inr s"
  then have sub: "set (map fst kwargs) \<subseteq> set Settings_fields"
    and "map_of kwargs ''ISO_min'' \<noteq> None" "map_of kwargs ''ISO_max'' \<noteq> None"
      "map_of kwargs ''exposure_min'' \<noteq> None" "map_of kwargs ''exposure_max'' \<noteq> None"
    by (auto simp: new_Settings_def split: if_splits option.splits)
  then have "set Settings_fields \<subseteq> set (map fst kwargs)"
    unfolding map_of_None_key by (simp add: Settings_fields_def)
  with sub show "set (map fst kwargs) = set Settings_fields" by blast
next
  assume eq: "set (map fst kwargs) = set Settings_fields"
  then have "map_of kwargs ''ISO_min'' \<noteq> None" "map_of kwargs ''ISO_max'' \<noteq> None"
      "map_of kwargs ''exposure_min'' \<noteq> None" "map_of kwargs ''exposure_max'' \<noteq> None"
    unfolding map_of_None_key by (simp_all add: Settings_fields_def)
  then show "\<exists>s. new_Settings kwargs = Inr s"
    using eq by (auto simp: new_Settings_def)
qed

lemma new_tuple_error:
  "new_Device kwargs = Inl e \<Longrightarrow> e = TypeError"
  "new_Image kwargs = Inl e \<Longrightarrow> e = TypeError"
  "new_Settings kwargs = Inl e \<Longrightarrow> e = TypeError"
  by (auto simp: new_Device_def new_Image_def new_Settings_def split: if_splits option.splits)

lemma new_Camera_Inr_keys:
  assumes "new_Camera device_properties image_properties settings_properties = Inr cam"
  shows "set (map fst device_properties) = set Device_fields \<and>
         set (map fst image_properties) = set Image_fields \<and>
         set (map fst settings_properties) = set Settings_fields"
proof -
  from assms have "(\<exists>d. new_Device device_properties = Inr d) \<and>
      (\<exists>i. new_Image image_properties = Inr i) \<and>
      (\<exists>s. new_Settings settings_properties = Inr s)"
    by (auto simp: new_Camera_def split: sum.splits)
  then show ?thesis
    by (simp only: new_Device_Inr_iff new_Image_Inr_iff new_Settings_Inr_iff)
qed

lemma new_Image_fields:
  "new_Image kwargs = Inr img \<Longrightarrow>
   map_of kwargs ''shape'' = Some (shape img) \<and>
   map_of kwargs ''bayer_pattern'' = Some (bayer_pattern img)"
  by (auto simp: new_Image_def split: if_splits option.splits)

lemma new_Camera_wrong_keys:
  assumes "set (map fst device_properties) \<noteq> set Device_fields \<or>
    set (map fst image_properties) \<noteq> set Image_fields \<or>
    set (map fst settings_properties) \<noteq> set Settings_fields"
  shows "new_Camera device_properties image_properties settings_properties = Inl TypeError"
proof -
  from assms have "(\<nexists>d. new_Device device_properties = Inr d) \<or>
      (\<nexists>i. new_Image image_properties = Inr i) \<or>
      (\<nexists>s. new_Settings settings_properties = Inr s)"
    by (simp only: new_Device_Inr_iff new_Image_Inr_iff new_Settings_Inr_iff)
  moreover have "\<And>x. (\<nexists>d. new_Device device_properties = Inr d) \<Longrightarrow>
      new_Device device_properties = Inl TypeError"
    using new_tuple_error(1) [of device_properties] by (cases "new_Device device_properties") auto
  moreover have "\<And>x. (\<nexists>i. new_Image image_properties = Inr i) \<Longrightarrow>
      new_Image image_properties = Inl TypeError"
    using new_tuple_error(2) [of image_properties] by (cases "new_Image image_properties") auto
  moreover have "\<And>x. (\<nexists>s. new_Settings settings_properties = Inr s) \<Longrightarrow>
      new_Settings settings_properties = Inl TypeError"
    using new_tuple_error(3) [of settings_properties]
    by (cases "new_Settings settings_properties") auto
  ultimately consider "new_Device device_properties = Inl TypeError"
    | "new_Image image_properties = Inl TypeError"
    | "new_Settings settings_properties = Inl TypeError"
    by blast
  then show ?thesis
  proof cases
    case 1
    then show ?thesis by (simp add: new_Camera_def)
  next
    case 2
    then show ?thesis
      by (cases "new_Device device_properties") (simp_all add: new_Camera_def new_tuple_error(1))
  next
    case 3
    then show ?thesis
      by (cases "new_Device device_properties"; cases "new_Image image_properties")
        (simp_all add: new_Camera_def new_tuple_error(1) new_tuple_error(2))
  qed
qed

text \<open>
  Claim C5, as the code has it.  Constructing a Camera from the three records raises
  \<open>TypeError\<close> whenever the keys of one of them are not exactly the fields of its
  named tuple: a required field is absent, or a key that is no field is present.
  When each record has exactly its fields, the three tuples are built and the
  construction is as good as the Bayer map: it returns the camera with the generated
  map, or raises the error of \<open>generate_bayer_map\<close>; with a two-dimensional shape and
  a 2\<times>2 pattern of integers it succeeds.
\<close>

theorem new_Camera_needs_exactly_the_fields:
  "(set (map fst device_properties) \<noteq> set Device_fields \<or>
    set (map fst image_properties) \<noteq> set Image_fields \<or>
    set (map fst settings_properties) \<noteq> set Settings_fields \<longrightarrow>
      new_Camera device_properties image_properties settings_properties = Inl TypeError) \<and>
   (set (map fst device_properties) = set Device_fields \<and>
    set (map fst image_properties) = set Image_fields \<and>
    set (map fst settings_properties) = set Settings_fields \<longrightarrow>
      (\<exists>d i s. new_Device device_properties = Inr d \<and> new_Image image_properties = Inr i \<and>
         new_Settings settings_properties = Inr s \<and>
         new_Camera device_properties image_properties settings_properties
           = (case generate_bayer_map i of
                Inl e \<Rightarrow> Inl e
              | Inr m \<Rightarrow> Inr \<lparr>device = d, image' = i, settings = s, bayer_map = m\<rparr>))) \<and>
   (set (map fst device_properties) = set Device_fields \<and>
    set (map fst image_properties) = set Image_fields \<and>
    set (map fst settings_properties) = set Settings_fields \<and>
    map_of image_properties ''shape'' = Some (JInts [int h, int w]) \<and>
    map_of image_properties ''bayer_pattern'' = Some (JRows [[a, b], [c, d]]) \<and>
    int64 a \<and> int64 b \<and> int64 c \<and> int64 d \<longrightarrow>
      (\<exists>cam. new_Camera device_properties image_properties settings_properties = Inr cam))"
proof (intro conjI impI)
  assume "set (map fst device_properties) \<noteq> set Device_fields \<or>
    set (map fst image_properties) \<noteq> set Image_fields \<or>
    set (map fst settings_properties) \<noteq> set Settings_fields"
  then show "new_Camera device_properties image_properties settings_properties = Inl TypeError"
    by (rule new_Camera_wrong_keys)
next
  assume "set (map fst device_properties) = set Device_fields \<and>
    set (map fst image_properties) = set Image_fields \<and>
    set (map fst settings_properties) = set Settings_fields"
  then have "(\<exists>d. new_Device device_properties = Inr d) \<and>
      (\<exists>i. new_Image image_properties = Inr i) \<and>
      (\<exists>s. new_Settings settings_properties = Inr s)"
    by (simp only: new_Device_Inr_iff new_Image_Inr_iff new_Settings_Inr_iff)
  then obtain d i s where "new_Device device_properties = Inr d"
    "new_Image image_properties = Inr i" "new_Settings settings_properties = Inr s"
    by blast
  then show "\<exists>d i s. new_Device device_properties = Inr d \<and> new_Image image_properties = Inr i \<and>
         new_Settings settings_properties = Inr s \<and>
         new_Camera device_properties image_properties settings_properties
           = (case generate_bayer_map i of
                Inl e \<Rightarrow> Inl e
              | Inr m \<Rightarrow> Inr \<lparr>device = d, image' = i, settings = s, bayer_map = m\<rparr>)"
    by (simp add: new_Camera_def)
next
  assume a: "set (map fst device_properties) = set Device_fields \<and>
    set (map fst image_properties) = set Image_fields \<and>
    set (map fst settings_properties) = set Settings_fields \<and>
    map_of image_properties ''shape'' = Some (JInts [int h, int w]) \<and>
    map_of image_properties ''bayer_pattern'' = Some (JRows [[a, b], [c, d]]) \<and>
    int64 a \<and> int64 b \<and> int64 c \<and> int64 d"
  then have "(\<exists>d. new_Device device_properties = Inr d) \<and>
      (\<exists>i. new_Image image_properties = Inr i) \<and>
      (\<exists>s. new_Settings settings_properties = Inr s)"
    by (simp only: new_Device_Inr_iff new_Image_Inr_iff new_Settings_Inr_iff)
  then obtain dv i s where t: "new_Device device_properties = Inr dv"
    "new_Image image_properties = Inr i" "new_Settings settings_properties = Inr s"
    by blast
  have "shape i = JInts [int h, int w]" "bayer_pattern i = JRows [[a, b], [c, d]]"
    using new_Image_fields [OF t(2)] a by simp_all
  then have "\<exists>m. generate_bayer_map i = Inr m"
    using generate_bayer_map_tiles [of i "[int h, int w]" a b c d] a by auto
  then show "\<exists>cam. new_Camera device_properties image_properties settings_properties = Inr cam"
    using t by (auto simp: new_Camera_def)
qed

lemma iPhone_keys:
  "set (map fst iPhone_device) = set Device_fields"
  "set (map fst (iPhone_image ns)) = set Image_fields"
  "set (map fst iPhone_settings) = set Settings_fields"
  by (auto simp: iPhone_device_def iPhone_image_def iPhone_settings_def
      Device_fields_def Image_fields_def Settings_fields_def)

theorem new_Camera_needs_exactly_the_fields_witness:
  "new_Camera [(''manufacturer'', JStr ''Apple'')] (iPhone_image [2, 2]) iPhone_settings
     = Inl TypeError \<and>
   (\<exists>cam. new_Camera iPhone_device (iPhone_image [2, 2]) iPhone_settings = Inr cam) \<and>
   (\<exists>d i s. new_Device iPhone_device = Inr d \<and> new_Image (iPhone_image [2, 2]) = Inr i \<and>
      new_Settings iPhone_settings = Inr s \<and>
      new_Camera iPhone_device (iPhone_image [2, 2]) iPhone_settings
        = (case generate_bayer_map i of
             Inl e \<Rightarrow> Inl e
           | Inr m \<Rightarrow> Inr \<lparr>device = d, image' = i, settings = s, bayer_map = m\<rparr>))"
proof -
  have miss: "set (map fst [(''manufacturer'', JStr ''Apple'')]) \<noteq> set Device_fields"
    by (simp add: Device_fields_def)
  have vals: "map_of (iPhone_image [2, 2]) ''shape'' = Some (JInts [int 2, int 2])"
    "map_of (iPhone_image [2, 2]) ''bayer_pattern'' = Some (JRows [[0, 1], [2, 3]])"
    "int64 0" "int64 1" "int64 2" "int64 3"
    by (simp_all add: iPhone_image_def int64_def)
  note t1 = new_Camera_needs_exactly_the_fields
        [of "[(''manufacturer'', JStr ''Apple'')]" "iPhone_image [2, 2]" iPhone_settings]
  note t2 = new_Camera_needs_exactly_the_fields
        [of iPhone_device "iPhone_image [2, 2]" iPhone_settings 2 2 0 1 2 3]
  have c1: "new_Camera [(''manufacturer'', JStr ''Apple'')] (iPhone_image [2, 2]) iPhone_settings
     = Inl TypeError"
    using t1 miss by blast
  have k: "set (map fst iPhone_device) = set Device_fields \<and>
      set (map fst (iPhone_image [2, 2])) = set Image_fields \<and>
      set (map fst iPhone_settings) = set Settings_fields"
    by (simp only: iPhone_keys)
  have c2: "\<exists>cam. new_Camera iPhone_device (iPhone_image [2, 2]) iPhone_settings = Inr cam"
    using t2 k vals by blast
  have c3: "\<exists>d i s. new_Device iPhone_device = Inr d \<and> new_Image (iPhone_image [2, 2]) = Inr i \<and>
      new_Settings iPhone_settings = Inr s \<and>
      new_Camera iPhone_device (iPhone_image [2, 2]) iPhone_settings
        = (case generate_bayer_map i of
             Inl e \<Rightarrow> Inl e
           | Inr m \<Rightarrow> Inr \<lparr>device = d, image' = i, settings = s, bayer_map = m\<rparr>)"
    using t2 k by blast
  show ?thesis using c1 c2 c3 by (intro conjI)
qed

text \<open>
  Claim C5 as stated fails: with every required field present in all three records,
  one more key in the device record makes the construction raise \<open>TypeError\<close>.
\<close>

theorem new_Camera_rejects_extra_field:
  "set Device_fields \<subseteq> set (map fst (iPhone_device @ [(''model'', JStr ''A1662'')])) \<and>
   set Image_fields \<subseteq> set (map fst (iPhone_image [2, 2])) \<and>
   set Settings_fields \<subseteq> set (map fst iPhone_settings) \<and>
   new_Camera (iPhone_device @ [(''model'', JStr ''A1662'')]) (iPhone_image [2, 2]) iPhone_settings
     = Inl TypeError"
proof -
  have "new_Device (iPhone_device @ [(''model'', JStr ''A1662'')]) = Inl TypeError"
    by (simp add: new_Device_def Device_fields_def iPhone_device_def)
  then have "new_Camera (iPhone_device @ [(''model'', JStr ''A1662'')]) (iPhone_image [2, 2])
      iPhone_settings = Inl TypeError"
    by (simp add: new_Camera_def)
  moreover have "set Device_fields \<subseteq> set (map fst (iPhone_device @ [(''model'', JStr ''A1662'')]))"
    by (simp add: Device_fields_def iPhone_device_def)
  moreover have "set Image_fields \<subseteq> set (map fst (iPhone_image [2, 2]))"
    "set Settings_fields \<subseteq> set (map fst iPhone_settings)"
    by (simp_all only: iPhone_keys subset_refl)
  ultimately show ?thesis by (intro conjI)
qed

subsection \<open>Reading the metadata file\<close>

lemma field_sets_differ:
  "set Device_fields \<noteq> set Image_fields"
  "set Device_fields \<noteq> set Settings_fields"
  "set Image_fields \<noteq> set Settings_fields"
proof -
  have "''name'' \<in> set Device_fields" "''name'' \<notin> set Image_fields"
    "''name'' \<notin> set Settings_fields" "''bias'' \<in> set Image_fields"
    "''bias'' \<notin> set Settings_fields"
    by (simp_all add: Device_fields_def Image_fields_def Settings_fields_def)
  then show "set Device_fields \<noteq> set Image_fields" "set Device_fields \<noteq> set Settings_fields"
    "set Image_fields \<noteq> set Settings_fields"
    by metis+
qed

lemma three_distinct_keys:
  assumes "distinct [k1, k2, k3]" "set [k1, k2, k3] = {A, B, C}"
  shows "(k1, k2, k3) \<in> {(A, B, C), (A, C, B), (B, A, C), (B, C, A), (C, A, B), (C, B, A)}"
proof -
  have "k1 \<in> {A, B, C}" "k2 \<in> {A, B, C}" "k3 \<in> {A, B, C}"
    using assms(2) by auto
  moreover have "A \<in> {k1, k2, k3}" "B \<in> {k1, k2, k3}" "C \<in> {k1, k2, k3}"
    using assms(2) by auto
  ultimately show ?thesis using assms(1) by auto
qed

lemma length3:
  assumes "distinct (map fst fd)" "set (map fst fd) = {A, B, C}" "A \<noteq> B" "A \<noteq> C" "B \<noteq> C"
  shows "\<exists>k1 v1 k2 v2 k3 v3. fd = [(k1, v1), (k2, v2), (k3, v3)]"
proof -
  have "card (set (map fst fd)) = length (map fst fd)"
    using assms(1) by (rule distinct_card)
  moreover have "card {A, B, C} = 3" using assms(3-5) by simp
  ultimately have "length fd = 3" using assms(2) by simp
  then obtain x y z where "fd = [x, y, z]"
    by (auto simp: length_Suc_conv numeral_3_eq_3)
  then show ?thesis by (cases x; cases y; cases z) simp
qed

lemma misordered_groups:
  assumes k: "set (map fst v1) = set Device_fields" "set (map fst v2) = set Image_fields"
      "set (map fst v3) = set Settings_fields"
    and keys: "distinct [k1, k2, k3]" "set [k1, k2, k3] = {''device'', ''image'', ''settings''}"
      "[k1, k2, k3] \<noteq> [''device'', ''image'', ''settings'']"
  shows "new_Camera_by_key [(k1, v1), (k2, v2), (k3, v3)] = Inl TypeError"
proof -
  have nd: "\<And>v. set (map fst v) \<noteq> set Device_fields \<Longrightarrow> new_Device v = Inl TypeError"
    using new_Device_Inr_iff new_tuple_error(1) by (metis sum.exhaust_sel sum.collapse(1) sum.collapse(2))
  have ni: "\<And>v. set (map fst v) \<noteq> set Image_fields \<Longrightarrow> new_Image v = Inl TypeError"
    using new_Image_Inr_iff new_tuple_error(2) by (metis sum.exhaust_sel sum.collapse(1) sum.collapse(2))
  have d2: "new_Device v2 = Inl TypeError" and d3: "new_Device v3 = Inl TypeError"
    and i3: "new_Image v3 = Inl TypeError"
    using nd [of v2] nd [of v3] ni [of v3] k field_sets_differ by simp_all
  obtain d1 where d1: "new_Device v1 = Inr d1"
    using k(1) new_Device_Inr_iff by blast
  define A B C where "A = ''device''" and "B = ''image''" and "C = ''settings''"
  have ne: "A \<noteq> B" "A \<noteq> C" "B \<noteq> C" "B \<noteq> A" "C \<noteq> A" "C \<noteq> B"
    by (simp_all add: A_def B_def C_def)
  have byk: "\<And>fd. new_Camera_by_key fd =
      (case (map_of fd A, map_of fd B, map_of fd C) of
         (Some d, Some i, Some s) \<Rightarrow> new_Camera d i s
       | _ \<Rightarrow> Inl KeyError)"
    by (simp add: new_Camera_by_key_def A_def B_def C_def)
  have "(k1, k2, k3) \<in> {(A, B, C), (A, C, B), (B, A, C), (B, C, A), (C, A, B), (C, B, A)}"
    using three_distinct_keys [OF keys(1), of A B C] keys(2) by (simp only: A_def B_def C_def)
  moreover have "(k1, k2, k3) \<noteq> (A, B, C)"
    using keys(3) by (simp add: A_def B_def C_def)
  ultimately consider "k1 = A \<and> k2 = C \<and> k3 = B" | "k1 = B \<and> k2 = A \<and> k3 = C"
    | "k1 = B \<and> k2 = C \<and> k3 = A" | "k1 = C \<and> k2 = A \<and> k3 = B"
    | "k1 = C \<and> k2 = B \<and> k3 = A"
    by (simp only: insert_iff empty_iff prod.inject) blast
  then show ?thesis
  proof cases
    case 1 then show ?thesis by (simp add: byk ne new_Camera_def d1 i3)
  next
    case 2 then show ?thesis by (simp add: byk ne new_Camera_def d2)
  next
    case 3 then show ?thesis by (simp add: byk ne new_Camera_def d3)
  next
    case 4 then show ?thesis by (simp add: byk ne new_Camera_def d2)
  next
    case 5 then show ?thesis by (simp add: byk ne new_Camera_def d3)
  qed
qed

lemma new_Camera_parts:
  "new_Camera g1 g2 g3 = Inr cam \<Longrightarrow>
   new_Device g1 = Inr (device cam) \<and> new_Image g2 = Inr (image' cam) \<and>
   new_Settings g3 = Inr (settings cam) \<and>
   generate_bayer_map (image' cam) = Inr (bayer_map cam)"
  by (auto simp: new_Camera_def split: sum.splits)

lemma read_from_file_three:
  "files file_path = Inr [(k1, g1), (k2, g2), (k3, g3)] \<Longrightarrow>
   read_from_file files file_path = new_Camera g1 g2 g3"
  by (simp add: read_from_file_def)

lemma read_from_file_not_three:
  "files file_path = Inr full_dictionary \<Longrightarrow> length full_dictionary \<noteq> 3 \<Longrightarrow>
   read_from_file files file_path = Inl ValueError"
  by (auto simp: read_from_file_def split: list.splits)

text \<open>
  Claim C10.  \<open>Camera.read_from_file\<close> hands the values of the metadata dictionary
  to the constructor in the dictionary's order and never looks at a key.  For a
  dictionary of three groups the result is the result of constructing the camera
  from the first group as device properties, the second as image properties and the
  third as settings, so that the device, image and settings tuples of a camera it
  returns are built from the first, second and third group; any other number of
  groups raises \<open>ValueError\<close>; and two files with the same groups in the same order
  give the same result, whatever their keys.  For a file whose top-level keys are
  \<open>device\<close>, \<open>image\<close>, \<open>settings\<close> in any other order, some group is handed to the
  constructor in a place other than the one its key names: the construction fails,
  or it returns a camera whose tuples are built from those groups (assigning by key
  raises \<open>TypeError\<close> on such a file); and when the groups do sit under their own
  keys the construction fails with \<open>TypeError\<close>.
\<close>

theorem read_from_file_assigns_by_position:
  assumes loaded: "files file_path = Inr full_dictionary"
  shows
   "(\<forall>k1 g1 k2 g2 k3 g3. full_dictionary = [(k1, g1), (k2, g2), (k3, g3)] \<longrightarrow>
        read_from_file files file_path = new_Camera g1 g2 g3 \<and>
        (\<forall>cam. read_from_file files file_path = Inr cam \<longrightarrow>
           new_Device g1 = Inr (device cam) \<and> new_Image g2 = Inr (image' cam) \<and>
           new_Settings g3 = Inr (settings cam))) \<and>
    (length full_dictionary \<noteq> 3 \<longrightarrow> read_from_file files file_path = Inl ValueError) \<and>
    (\<forall>files' other. files' file_path = Inr other \<and> map snd other = map snd full_dictionary \<longrightarrow>
        read_from_file files' file_path = read_from_file files file_path) \<and>
    (distinct (map fst full_dictionary) \<and>
     set (map fst full_dictionary) = {''device'', ''image'', ''settings''} \<and>
     map fst full_dictionary \<noteq> [''device'', ''image'', ''settings''] \<longrightarrow>
       (\<exists>k1 g1 k2 g2 k3 g3.
          full_dictionary = [(k1, g1), (k2, g2), (k3, g3)] \<and>
          (k1, k2, k3) \<noteq> (''device'', ''image'', ''settings'') \<and>
          read_from_file files file_path = new_Camera g1 g2 g3 \<and>
          ((\<exists>e. read_from_file files file_path = Inl e) \<or>
           (\<exists>cam. read_from_file files file_path = Inr cam \<and>
              new_Device g1 = Inr (device cam) \<and> new_Image g2 = Inr (image' cam) \<and>
              new_Settings g3 = Inr (settings cam) \<and>
              new_Camera_by_key full_dictionary = Inl TypeError)))) \<and>
    (distinct (map fst full_dictionary) \<and>
     set (map fst full_dictionary) = {''device'', ''image'', ''settings''} \<and>
     map fst full_dictionary \<noteq> [''device'', ''image'', ''settings''] \<and>
     (\<exists>cam. new_Camera_by_key full_dictionary = Inr cam) \<longrightarrow>
       read_from_file files file_path = Inl TypeError)"
proof (intro conjI allI impI)
  fix k1 g1 k2 g2 k3 g3
  assume fd: "full_dictionary = [(k1, g1), (k2, g2), (k3, g3)]"
  show r: "read_from_file files file_path = new_Camera g1 g2 g3"
    using loaded fd by (simp add: read_from_file_three)
  fix cam
  assume "read_from_file files file_path = Inr cam"
  then have "new_Camera g1 g2 g3 = Inr cam" using r by simp
  then show "new_Device g1 = Inr (device cam)" "new_Image g2 = Inr (image' cam)"
    "new_Settings g3 = Inr (settings cam)"
    by (simp_all add: new_Camera_parts)
next
  assume "length full_dictionary \<noteq> 3"
  then show "read_from_file files file_path = Inl ValueError"
    using loaded by (rule read_from_file_not_three [rotated])
next
  fix files' :: "path \<Rightarrow> error + (string \<times> properties) list"
    and other :: "(string \<times> properties) list"
  assume "files' file_path = Inr other \<and> map snd other = map snd full_dictionary"
  then show "read_from_file files' file_path = read_from_file files file_path"
    using loaded by (simp add: read_from_file_def)
next
  assume mis: "distinct (map fst full_dictionary) \<and>
     set (map fst full_dictionary) = {''device'', ''image'', ''settings''} \<and>
     map fst full_dictionary \<noteq> [''device'', ''image'', ''settings'']"
  then obtain k1 v1 k2 v2 k3 v3 where fd: "full_dictionary = [(k1, v1), (k2, v2), (k3, v3)]"
    using length3 [of full_dictionary "''device''" "''image''" "''settings''"] by auto
  have read: "read_from_file files file_path = new_Camera v1 v2 v3"
    using loaded fd by (simp add: read_from_file_three)
  have keys: "(k1, k2, k3) \<noteq> (''device'', ''image'', ''settings'')"
    using mis by (simp add: fd)
  have out: "(\<exists>e. read_from_file files file_path = Inl e) \<or>
       (\<exists>cam. read_from_file files file_path = Inr cam \<and>
          new_Device v1 = Inr (device cam) \<and> new_Image v2 = Inr (image' cam) \<and>
          new_Settings v3 = Inr (settings cam) \<and>
          new_Camera_by_key full_dictionary = Inl TypeError)"
  proof (cases "new_Camera v1 v2 v3")
    case (Inl e)
    then show ?thesis using read by simp
  next
    case (Inr cam)
    from new_Camera_Inr_keys [OF Inr] mis
    have "new_Camera_by_key [(k1, v1), (k2, v2), (k3, v3)] = Inl TypeError"
      by (intro misordered_groups) (simp_all add: fd)
    then show ?thesis using read Inr fd new_Camera_parts [OF Inr] by simp
  qed
  show "\<exists>k1 g1 k2 g2 k3 g3.
          full_dictionary = [(k1, g1), (k2, g2), (k3, g3)] \<and>
          (k1, k2, k3) \<noteq> (''device'', ''image'', ''settings'') \<and>
          read_from_file files file_path = new_Camera g1 g2 g3 \<and>
          ((\<exists>e. read_from_file files file_path = Inl e) \<or>
           (\<exists>cam. read_from_file files file_path = Inr cam \<and>
              new_Device g1 = Inr (device cam) \<and> new_Image g2 = Inr (image' cam) \<and>
              new_Settings g3 = Inr (settings cam) \<and>
              new_Camera_by_key full_dictionary = Inl TypeError))"
    using fd keys read out by (intro exI conjI)
next
  assume mis: "distinct (map fst full_dictionary) \<and>
     set (map fst full_dictionary) = {''device'', ''image'', ''settings''} \<and>
     map fst full_dictionary \<noteq> [''device'', ''image'', ''settings''] \<and>
     (\<exists>cam. new_Camera_by_key full_dictionary = Inr cam)"
  then obtain k1 v1 k2 v2 k3 v3 where fd: "full_dictionary = [(k1, v1), (k2, v2), (k3, v3)]"
    using length3 [of full_dictionary "''device''" "''image''" "''settings''"] by auto
  have read: "read_from_file files file_path = new_Camera v1 v2 v3"
    using loaded by (simp add: read_from_file_def fd)
  have "\<not> (set (map fst v1) = set Device_fields \<and> set (map fst v2) = set Image_fields \<and>
      set (map fst v3) = set Settings_fields)"
  proof
    assume "set (map fst v1) = set Device_fields \<and> set (map fst v2) = set Image_fields \<and>
      set (map fst v3) = set Settings_fields"
    with mis have "new_Camera_by_key [(k1, v1), (k2, v2), (k3, v3)] = Inl TypeError"
      by (intro misordered_groups) (simp_all add: fd)
    then show False using mis fd by simp
  qed
  then have "new_Camera v1 v2 v3 = Inl TypeError"
    by (intro new_Camera_wrong_keys) blast
  then show "read_from_file files file_path = Inl TypeError" using read by simp
qed


lemma iPhone_camera:
  "\<exists>cam. new_Camera iPhone_device (iPhone_image [2, 2]) iPhone_settings = Inr cam"
proof -
  obtain d i s where t: "new_Device iPhone_device = Inr d"
    "new_Image (iPhone_image [2, 2]) = Inr i" "new_Settings iPhone_settings = Inr s"
    using new_Device_Inr_iff [of iPhone_device] new_Image_Inr_iff [of "iPhone_image [2, 2]"]
      new_Settings_Inr_iff [of iPhone_settings] iPhone_keys
    by auto
  have "shape i = JInts [2, 2]" "bayer_pattern i = JRows [[0, 1], [2, 3]]"
    using new_Image_fields [OF t(2)] by (simp_all add: iPhone_image_def)
  then have "\<exists>m. generate_bayer_map i = Inr m"
    using generate_bayer_map_tiles [of i "[2, 2]" 0 1 2 3] by (simp add: int64_def)
  then show ?thesis using t by (auto simp: new_Camera_def)
qed

theorem read_from_file_assigns_by_position_witness:
  "read_from_file (\<lambda>p. Inr misordered_file) ''info.json''
     = new_Camera (iPhone_image [2, 2]) iPhone_device iPhone_settings \<and>
   read_from_file (\<lambda>p. Inr misordered_file) ''info.json'' = Inl TypeError \<and>
   (\<exists>cam. new_Camera_by_key misordered_file = Inr cam) \<and>
   (\<exists>cam. read_from_file (\<lambda>p. Inr mislabelled_file) ''info.json'' = Inr cam \<and>
      new_Device iPhone_device = Inr (device cam) \<and>
      new_Image (iPhone_image [2, 2]) = Inr (image' cam) \<and>
      map_of mislabelled_file ''image'' = Some iPhone_device \<and>
      map_of mislabelled_file ''device'' = Some (iPhone_image [2, 2]) \<and>
      new_Camera_by_key mislabelled_file = Inl TypeError) \<and>
   read_from_file (\<lambda>p. Inr ordered_file) ''info.json''
     = read_from_file (\<lambda>p. Inr mislabelled_file) ''info.json''"
proof -
  note t1 = read_from_file_assigns_by_position
    [of "\<lambda>p. Inr misordered_file" "''info.json''" misordered_file, OF refl]
  note t2 = read_from_file_assigns_by_position
    [of "\<lambda>p. Inr mislabelled_file" "''info.json''" mislabelled_file, OF refl]
  have k1: "distinct (map fst misordered_file) \<and>
     set (map fst misordered_file) = {''device'', ''image'', ''settings''} \<and>
     map fst misordered_file \<noteq> [''device'', ''image'', ''settings'']"
    by (auto simp: misordered_file_def)
  have by_key: "\<exists>cam. new_Camera_by_key misordered_file = Inr cam"
    using iPhone_camera by (simp add: new_Camera_by_key_def misordered_file_def)
  have c0: "read_from_file (\<lambda>p. Inr misordered_file) ''info.json''
     = new_Camera (iPhone_image [2, 2]) iPhone_device iPhone_settings"
    using t1 [THEN conjunct1, rule_format, of "''image''" "iPhone_image [2, 2]" "''device''"
        iPhone_device "''settings''" iPhone_settings]
    by (simp only: misordered_file_def simp_thms)
  have c1: "read_from_file (\<lambda>p. Inr misordered_file) ''info.json'' = Inl TypeError"
    using t1 [THEN conjunct2, THEN conjunct2, THEN conjunct2, THEN conjunct2, THEN mp] k1 by_key
    by (simp only: simp_thms)
  obtain cam where ok: "read_from_file (\<lambda>p. Inr mislabelled_file) ''info.json'' = Inr cam"
    using iPhone_camera by (auto simp: read_from_file_def mislabelled_file_def)
  have parts: "new_Device iPhone_device = Inr (device cam) \<and>
      new_Image (iPhone_image [2, 2]) = Inr (image' cam) \<and>
      new_Settings iPhone_settings = Inr (settings cam)"
    using t2 [THEN conjunct1, rule_format, of "''image''" iPhone_device "''device''"
        "iPhone_image [2, 2]" "''settings''" iPhone_settings, THEN conjunct2, rule_format, of cam]
      ok
    by (simp only: mislabelled_file_def simp_thms)
  have k2: "distinct (map fst mislabelled_file) \<and>
     set (map fst mislabelled_file) = {''device'', ''image'', ''settings''} \<and>
     map fst mislabelled_file \<noteq> [''device'', ''image'', ''settings'']"
    by (auto simp: mislabelled_file_def)
  have "(\<exists>e. read_from_file (\<lambda>p. Inr mislabelled_file) ''info.json'' = Inl e) \<or>
      new_Camera_by_key mislabelled_file = Inl TypeError"
    using t2 [THEN conjunct2, THEN conjunct2, THEN conjunct2, THEN conjunct1, THEN mp, OF k2]
    by blast
  then have by_key2: "new_Camera_by_key mislabelled_file = Inl TypeError"
    using ok by simp
  have keys: "map_of mislabelled_file ''image'' = Some iPhone_device"
    "map_of mislabelled_file ''device'' = Some (iPhone_image [2, 2])"
    by (simp_all add: mislabelled_file_def)
  have "map snd ordered_file = map snd mislabelled_file"
    by (simp add: ordered_file_def mislabelled_file_def)
  then have c3: "read_from_file (\<lambda>p. Inr ordered_file) ''info.json''
     = read_from_file (\<lambda>p. Inr mislabelled_file) ''info.json''"
    using t2 [THEN conjunct2, THEN conjunct2, THEN conjunct1, rule_format,
        of "\<lambda>p. Inr ordered_file" ordered_file] by simp
  have c2: "\<exists>cam. read_from_file (\<lambda>p. Inr mislabelled_file) ''info.json'' = Inr cam \<and>
      new_Device iPhone_device = Inr (device cam) \<and>
      new_Image (iPhone_image [2, 2]) = Inr (image' cam) \<and>
      map_of mislabelled_file ''image'' = Some iPhone_device \<and>
      map_of mislabelled_file ''device'' = Some (iPhone_image [2, 2]) \<and>
      new_Camera_by_key mislabelled_file = Inl TypeError"
    using ok parts by_key2 keys by (intro exI [of _ cam] conjI) simp_all
  show ?thesis using c0 c1 by_key c2 c3 by (intro conjI)
qed

end
